theory Spec2Isabelle
  imports Main
begin

section \<open>The GitHub platform adapter: data model\<close>

text \<open>
  The adapter lives in one module with a module-level variable \<open>config\<close> (the repository
  session) and talks to GitHub through \<open>githubApi\<close>. Every exported function is
  \<open>async\<close>; execution is single-threaded, so each function is modelled as a function
  from the session to a result and the updated session. A thrown error is the \<open>Inl\<close>
  of a sum.
\<close>

subsection \<open>Errors\<close>

text \<open>
  The named messages are imported from \<open>constants/error-messages\<close>, which is not part of
  the sources at hand: they are kept as distinct symbols, and every other message is a
  \<open>Text\<close>. None of the named messages starts with \<open>Repository access blocked\<close> or equals
  the text of an HTTP 451 failure.
\<close>

datatype message =
    PLATFORM_INTEGRATION_UNAUTHORIZED
  | REPOSITORY_ACCESS_FORBIDDEN
  | REPOSITORY_ARCHIVED
  | REPOSITORY_BLOCKED
  | REPOSITORY_CANNOT_FORK
  | REPOSITORY_CHANGED
  | REPOSITORY_DISABLED
  | REPOSITORY_EMPTY
  | REPOSITORY_FORKED
  | REPOSITORY_NOT_FOUND
  | REPOSITORY_RENAMED
  | EXTERNAL_HOST_ERROR
  | Text string

text \<open>
  A thrown JavaScript error with the three properties the adapter looks at:
  \<open>err.message\<close>, \<open>err.statusCode\<close> and \<open>err.body?.message\<close>.

  Modelled from the spec: the class \<open>ExternalHostError\<close> (\<open>types/errors\<close> is not part
  of the sources at hand), which wraps a lower-level failure and can be told from every
  other error; \<open>instanceof ExternalHostError\<close> is the test for its constructor. The
  wrapper has a message of its own and no status code.
\<close>

datatype js_error =
    Error message "nat option" "string option"
  | ExternalHostError js_error


fun err_statusCode :: "js_error \<Rightarrow> nat option" where
  "err_statusCode (Error _ c _) = c"
| "err_statusCode (ExternalHostError _) = None"

fun err_body_message :: "js_error \<Rightarrow> string option" where
  "err_body_message (Error _ _ b) = b"
| "err_body_message (ExternalHostError _) = None"

fun is_ExternalHostError :: "js_error \<Rightarrow> bool" where
  "is_ExternalHostError (ExternalHostError _) = True"
| "is_ExternalHostError (Error _ _ _) = False"

definition new_Error :: "message \<Rightarrow> js_error" where
  "new_Error m = Error m None None"

subsection \<open>Strings\<close>

definition startsWith :: "string \<Rightarrow> string \<Rightarrow> bool" where
  "startsWith s p = (take (length p) s = p)"

definition endsWith :: "string \<Rightarrow> string \<Rightarrow> bool" where
  "endsWith s p = (length p \<le> length s \<and> drop (length s - length p) s = p)"

definition toLowerCase_char :: "char \<Rightarrow> char" where
  "toLowerCase_char c =
     (let n = (of_char c :: nat) in if 65 \<le> n \<and> n \<le> 90 then char_of (n + 32) else c)"

definition toLowerCase :: "string \<Rightarrow> string" where
  "toLowerCase s = map toLowerCase_char s"

text \<open>JavaScript truthiness of a possibly missing string: present and not empty.\<close>

fun truthy :: "string option \<Rightarrow> bool" where
  "truthy None = False"
| "truthy (Some s) = (s \<noteq> [])"

text \<open>Decimal rendering of a number inside a template string.\<close>

fun digits :: "nat \<Rightarrow> string" where
  "digits n =
     (if n < 10 then [char_of (48 + n)] else digits (n div 10) @ [char_of (48 + n mod 10)])"

subsection \<open>Records exchanged with GitHub\<close>

record Comment =
  comment_id :: nat
  comment_body :: string

text \<open>A node of the open or closed pull-request GraphQL query (\<open>GhGraphQlPr\<close>).\<close>

record GhGraphQlPr =
  gq_number :: nat
  gq_state :: string
  gq_title :: string
  gq_body :: "string option"
  gq_headRefName :: string
  gq_baseRefName :: "string option"
  gq_mergeStateStatus :: string
  gq_reviews :: nat
  gq_labels :: "string list option"
  gq_assignees :: "nat option"
  gq_reviewRequests :: "nat option"
  gq_comments :: "Comment list"

text \<open>
  A pull request of the REST API (\<open>GhRestPr\<close>). \<open>head\<close> is always present in GitHub's
  answers; \<open>head.repo\<close> and \<open>user\<close> may be null.
\<close>

record GhRestPr =
  rest_number :: nat
  rest_head_ref :: string
  rest_head_sha :: string
  rest_head_repo :: "string option"
  rest_title :: string
  rest_body :: "string option"
  rest_state :: string
  rest_merged_at :: "string option"
  rest_created_at :: "string option"
  rest_closed_at :: "string option"
  rest_user_login :: "string option"
  rest_mergeable :: "bool option"
  rest_mergeable_state :: "string option"

text \<open>The adapter's own view of a pull request (interface \<open>Pr\<close>).\<close>

record Pr =
  number :: nat
  displayNumber :: "string option"
  sourceBranch :: "string option"
  targetBranch :: "string option"
  sha :: "string option"
  title :: string
  body :: "string option"
  state :: string
  canMerge :: "bool option"
  canMergeReason :: "string option"
  isConflicted :: "bool option"
  labels :: "string list option"
  hasAssignees :: "bool option"
  hasReviewers :: "bool option"
  createdAt :: "string option"
  closedAt :: "string option"
  sourceRepo :: "string option"
  comments :: "Comment list"

record Issue =
  issue_number :: nat
  issue_title :: string
  issue_state :: string

record GhBranchStatus =
  status_context :: string
  status_state :: string

record CombinedBranchStatus =
  combined_state :: string
  combined_statuses :: "GhBranchStatus list"

text \<open>A check run; \<open>conclusion\<close> is null while the run is in progress.\<close>

record CheckRun =
  run_name :: string
  run_status :: string
  run_conclusion :: "string option"

record GhRepo =
  nameWithOwner :: "string option"
  defaultBranchRef_name :: "string option"
  isArchived :: bool
  isFork :: bool
  rebaseMergeAllowed :: bool
  squashMergeAllowed :: bool
  mergeCommitAllowed :: bool
  repo_autoMergeAllowed :: "bool option"
  repo_hasIssuesEnabled :: "bool option"

datatype BranchStatus = green | yellow | red

datatype EnsureIssueResult = updated | created

subsection \<open>Requests\<close>

text \<open>
  Every call on \<open>githubApi\<close> is recorded as a request: the endpoint with the parts of
  the URL and of the body that the adapter fills in.
\<close>

datatype request =
    GraphqlRepoInfo string string
  | GraphqlOpenPrs string string
  | GraphqlClosedPrs string string
  | GraphqlIssues string string "string option"
  | GetPulls string string
  | GetPull string nat
  | PostRef string string "string option"
  | PatchPull string nat string string
  | GetStatus string string
  | GetCheckRuns string string
  | GetIssue string nat
  | PatchIssue string nat string "string option" "string option" "string list option"
  | PostIssue string string string "string list"
  | GetComments string nat
  | PostComment string nat string
  | PatchComment string nat string
  | GetReviews string nat
  | PutMerge string nat string

subsection \<open>The collaborators\<close>

text \<open>
  What lies outside the adapter: the answers of GitHub, \<open>util/sanitize\<close>, and the
  clock and ISO parser of luxon. An answer is a function of all requests issued so far,
  the one being answered last, so GitHub may answer the same request differently each
  time. \<open>rest_write\<close> answers the requests whose response body the adapter ignores
  (\<open>None\<close>: success). \<open>fromISO\<close> gives the epoch milliseconds of a timestamp, and
  \<open>None\<close> for an invalid one.
\<close>

record env =
  graphql_repo :: "request list \<Rightarrow> js_error + GhRepo option"
  graphql_openPrs :: "request list \<Rightarrow> js_error + GhGraphQlPr list"
  graphql_closedPrs :: "request list \<Rightarrow> js_error + GhGraphQlPr list"
  graphql_issues :: "request list \<Rightarrow> js_error + Issue list"
  rest_pulls :: "request list \<Rightarrow> js_error + GhRestPr list"
  rest_pull :: "request list \<Rightarrow> js_error + GhRestPr option"
  rest_status :: "request list \<Rightarrow> js_error + CombinedBranchStatus"
  rest_checkRuns :: "request list \<Rightarrow> js_error + CheckRun list"
  rest_issue :: "request list \<Rightarrow> js_error + string"
  rest_comments :: "request list \<Rightarrow> js_error + Comment list"
  rest_reviews :: "request list \<Rightarrow> js_error + string list"
  rest_write :: "request list \<Rightarrow> js_error option"
  sanitize :: "string \<Rightarrow> string"
  fromISO :: "string \<Rightarrow> int option"
  now :: int

subsection \<open>The session\<close>

text \<open>
  \<open>LocalRepoConfig\<close>, the module variable \<open>config\<close>. A cache that is null, undefined or
  deleted is \<open>None\<close>. \<open>log\<close> is not a field of the source: it collects the requests
  issued, oldest first.
\<close>

record LocalRepoConfig =
  repository :: string
  parentRepo :: "string option"
  repositoryOwner :: string
  repositoryName :: string
  defaultBranch :: "string option"
  forkMode :: bool
  forkToken :: "string option"
  ignorePrAuthor :: bool
  renovateUsername :: "string option"
  mergeMethod :: "string option"
  autoMergeAllowed :: "bool option"
  hasIssuesEnabled :: "bool option"
  prReviewsRequired :: bool
  issueList :: "Issue list option"
  prList :: "Pr list option"
  openPrList :: "(nat \<Rightarrow> Pr option) option"
  closedPrList :: "(nat \<Rightarrow> Pr option) option"
  branchPrs :: "string \<Rightarrow> Pr option"
  log :: "request list"

text \<open>\<open>config.parentRepo || config.repository\<close>\<close>

definition target_repo :: "LocalRepoConfig \<Rightarrow> string" where
  "target_repo s = (case parentRepo s of
       Some p \<Rightarrow> (if p = [] then repository s else p)
     | None \<Rightarrow> repository s)"

text \<open>Issuing a request: it is logged, and the collaborator answers the log.\<close>

definition issue_request :: "request \<Rightarrow> LocalRepoConfig \<Rightarrow> LocalRepoConfig" where
  "issue_request r s = s\<lparr>log := log s @ [r]\<rparr>"

definition remote_write ::
  "env \<Rightarrow> request \<Rightarrow> LocalRepoConfig \<Rightarrow> js_error option \<times> LocalRepoConfig" where
  "remote_write e r s = (rest_write e (log s @ [r]), issue_request r s)"

section \<open>Merge orchestrator\<close>

text \<open>
  \<open>mergePr\<close>, the three nested \<open>try\<close> blocks under \<open>if (!automerged)\<close>: rebase, then
  squash, then merge; the first success ends the sequence.
\<close>

definition mergePr_fallback ::
  "env \<Rightarrow> nat \<Rightarrow> LocalRepoConfig \<Rightarrow> bool \<times> LocalRepoConfig" where
  "mergePr_fallback e prNo s =
     (case remote_write e (PutMerge (target_repo s) prNo ''rebase'') s of
        (None, s1) \<Rightarrow> (True, s1)
      | (Some err1, s1) \<Rightarrow>
          (case remote_write e (PutMerge (target_repo s) prNo ''squash'') s1 of
             (None, s2) \<Rightarrow> (True, s2)
           | (Some err2, s2) \<Rightarrow>
               (case remote_write e (PutMerge (target_repo s) prNo ''merge'') s2 of
                  (None, s3) \<Rightarrow> (True, s3)
                | (Some err3, s3) \<Rightarrow> (False, s3))))"

text \<open>\<open>mergePr\<close> from \<open>if (config.mergeMethod)\<close> on.\<close>

definition mergePr_attempts ::
  "env \<Rightarrow> nat \<Rightarrow> LocalRepoConfig \<Rightarrow> bool \<times> LocalRepoConfig" where
  "mergePr_attempts e prNo s =
     (if truthy (mergeMethod s) then
        (case remote_write e (PutMerge (target_repo s) prNo (the (mergeMethod s))) s of
           (None, s1) \<Rightarrow> (True, s1)
         | (Some err, s1) \<Rightarrow>
             (if err_statusCode err = Some 404 \<or> err_statusCode err = Some 405
              then mergePr_fallback e prNo s1
              else (False, s1)))
      else mergePr_fallback e prNo s)"

text \<open>
  \<open>mergePr({branchName, id})\<close>. The reviews are fetched outside any \<open>try\<close>, so a
  failure there is thrown to the caller.
\<close>

definition mergePr ::
  "env \<Rightarrow> nat \<Rightarrow> LocalRepoConfig \<Rightarrow> (js_error + bool) \<times> LocalRepoConfig" where
  "mergePr e prNo s =
     (if prReviewsRequired s then
        (let s1 = issue_request (GetReviews (target_repo s) prNo) s in
         case rest_reviews e (log s1) of
           Inl err \<Rightarrow> (Inl err, s1)
         | Inr reviews \<Rightarrow>
             (if \<not> list_ex (\<lambda>review. review = ''APPROVED'') reviews
              then (Inr False, s1)
              else (let (r, s2) = mergePr_attempts e prNo s1 in (Inr r, s2))))
      else (let (r, s2) = mergePr_attempts e prNo s in (Inr r, s2)))"

section \<open>Pull-request synchronizer\<close>

text \<open>
  Modelled from the spec: the values of the enumeration \<open>PrState\<close> (\<open>types\<close> is not part
  of the sources at hand). The states are open, closed and merged, the wildcard matches
  every state, and a leading \<open>!\<close> negates.
\<close>

definition PrState_Open :: string where "PrState_Open = ''open''"
definition PrState_Closed :: string where "PrState_Closed = ''closed''"
definition PrState_Merged :: string where "PrState_Merged = ''merged''"
definition PrState_All :: string where "PrState_All = ''all''"

definition matchesState :: "string \<Rightarrow> string \<Rightarrow> bool" where
  "matchesState st desiredState =
     (if desiredState = PrState_All then True
      else if startsWith desiredState ''!'' then st \<noteq> drop 1 desiredState
      else st = desiredState)"

text \<open>The predicate of the \<open>filter\<close> in \<open>getPrList\<close>.\<close>

definition authored_by_bot :: "LocalRepoConfig \<Rightarrow> GhRestPr \<Rightarrow> bool" where
  "authored_by_bot s pr =
     (forkMode s \<or> ignorePrAuthor s \<or>
      (if truthy (rest_user_login pr) \<and> truthy (renovateUsername s)
       then rest_user_login pr = renovateUsername s
       else True))"

text \<open>The object built by the \<open>map\<close> in \<open>getPrList\<close>.\<close>

definition list_entry :: "GhRestPr \<Rightarrow> Pr" where
  "list_entry pr =
     \<lparr> number = rest_number pr,
       displayNumber = None,
       sourceBranch = Some (rest_head_ref pr),
       targetBranch = None,
       sha = Some (rest_head_sha pr),
       title = rest_title pr,
       body = None,
       state = (if rest_state pr = PrState_Closed \<and> truthy (rest_merged_at pr)
                then PrState_Merged else rest_state pr),
       canMerge = None,
       canMergeReason = None,
       isConflicted = None,
       labels = None,
       hasAssignees = None,
       hasReviewers = None,
       createdAt = rest_created_at pr,
       closedAt = rest_closed_at pr,
       sourceRepo = rest_head_repo pr,
       comments = [] \<rparr>"

definition getPrList ::
  "env \<Rightarrow> LocalRepoConfig \<Rightarrow> (js_error + Pr list) \<times> LocalRepoConfig" where
  "getPrList e s =
     (case prList s of
        Some l \<Rightarrow> (Inr l, s)
      | None \<Rightarrow>
          (let s1 = issue_request (GetPulls (target_repo s) ''all'') s in
           case rest_pulls e (log s1) of
             Inl err \<Rightarrow> (Inl (ExternalHostError err), s1)
           | Inr raw \<Rightarrow>
               (let l = map list_entry (filter (authored_by_bot s1) raw)
                in (Inr l, s1\<lparr>prList := Some l\<rparr>))))"

text \<open>
  \<open>findPr({branchName, prTitle, state = PrState.All})\<close>: a missing \<open>state\<close> takes the
  default, and \<open>!prTitle\<close> holds of a missing or empty title.
\<close>

definition findPr_match ::
  "LocalRepoConfig \<Rightarrow> string \<Rightarrow> string option \<Rightarrow> string \<Rightarrow> Pr \<Rightarrow> bool" where
  "findPr_match s branchName prTitle st p =
     (sourceBranch p = Some branchName \<and>
      (\<not> truthy prTitle \<or> Some (title p) = prTitle) \<and>
      matchesState (state p) st \<and>
      (forkMode s \<or> Some (repository s) = sourceRepo p))"

definition findPr ::
  "env \<Rightarrow> string \<Rightarrow> string option \<Rightarrow> string option \<Rightarrow> LocalRepoConfig
     \<Rightarrow> (js_error + Pr option) \<times> LocalRepoConfig" where
  "findPr e branchName prTitle st s =
     (let desired = (case st of None \<Rightarrow> PrState_All | Some d \<Rightarrow> d) in
      case getPrList e s of
        (Inl err, s1) \<Rightarrow> (Inl err, s1)
      | (Inr l, s1) \<Rightarrow> (Inr (find (findPr_match s1 branchName prTitle desired) l), s1))"

text \<open>The body of the loop of \<open>getOpenPrs\<close>: one GraphQL node becomes a \<open>Pr\<close>.\<close>

definition canMergeStates :: "string list" where
  "canMergeStates = [''BEHIND'', ''CLEAN'', ''HAS_HOOKS'', ''UNSTABLE'']"

definition open_entry :: "LocalRepoConfig \<Rightarrow> GhGraphQlPr \<Rightarrow> Pr" where
  "open_entry s pr =
     (let hasNegativeReview = (gq_reviews pr > 0);
          mergeable = (\<not> hasNegativeReview \<and>
             (gq_mergeStateStatus pr \<in> set canMergeStates \<or>
              (truthy (forkToken s) \<and> gq_mergeStateStatus pr = ''BLOCKED'')))
      in
     \<lparr> number = gq_number pr,
       displayNumber = Some (''Pull Request #'' @ digits (gq_number pr)),
       sourceBranch = Some (gq_headRefName pr),
       targetBranch = gq_baseRefName pr,
       sha = None,
       title = gq_title pr,
       body = gq_body pr,
       state = PrState_Open,
       canMerge = Some mergeable,
       canMergeReason =
         (if hasNegativeReview then Some ''hasNegativeReview''
          else if mergeable then None
          else Some (''mergeStateStatus = '' @ gq_mergeStateStatus pr)),
       isConflicted = Some (gq_mergeStateStatus pr = ''DIRTY''),
       labels = gq_labels pr,
       hasAssignees = Some (case gq_assignees pr of None \<Rightarrow> False | Some n \<Rightarrow> n > 0),
       hasReviewers = Some (case gq_reviewRequests pr of None \<Rightarrow> False | Some n \<Rightarrow> n > 0),
       createdAt = None,
       closedAt = None,
       sourceRepo = None,
       comments = [] \<rparr>)"

text \<open>The body of the loop of \<open>getClosedPrs\<close>.\<close>

definition closed_entry :: "GhGraphQlPr \<Rightarrow> Pr" where
  "closed_entry pr =
     \<lparr> number = gq_number pr,
       displayNumber = Some (''Pull Request #'' @ digits (gq_number pr)),
       sourceBranch = Some (gq_headRefName pr),
       targetBranch = None,
       sha = None,
       title = gq_title pr,
       body = Some ''dummy body'',
       state = toLowerCase (gq_state pr),
       canMerge = None,
       canMergeReason = None,
       isConflicted = None,
       labels = None,
       hasAssignees = None,
       hasReviewers = None,
       createdAt = None,
       closedAt = None,
       sourceRepo = None,
       comments = gq_comments pr \<rparr>"

text \<open>\<open>config.openPrList[pr.number] = pr\<close> for every node, in order.\<close>

definition index_by_number :: "Pr list \<Rightarrow> (nat \<Rightarrow> Pr option)" where
  "index_by_number prs = fold (\<lambda>pr m. m(number pr \<mapsto> pr)) prs Map.empty"

text \<open>
  \<open>getOpenPrs\<close> and \<open>getClosedPrs\<close>: the cache is set to the empty object before the
  query, the query's failure is logged and swallowed, and an empty answer returns a
  fresh empty object.
\<close>

definition getOpenPrs ::
  "env \<Rightarrow> LocalRepoConfig \<Rightarrow> (nat \<Rightarrow> Pr option) \<times> LocalRepoConfig" where
  "getOpenPrs e s =
     (case openPrList s of
        Some m \<Rightarrow> (m, s)
      | None \<Rightarrow>
          (let s1 = issue_request (GraphqlOpenPrs (repositoryOwner s) (repositoryName s))
                      (s\<lparr>openPrList := Some Map.empty\<rparr>) in
           case graphql_openPrs e (log s1) of
             Inl err \<Rightarrow> (Map.empty, s1)
           | Inr nodes \<Rightarrow>
               (if nodes = [] then (Map.empty, s1)
                else (let m = index_by_number (map (open_entry s1) nodes)
                      in (m, s1\<lparr>openPrList := Some m\<rparr>)))))"

definition getClosedPrs ::
  "env \<Rightarrow> LocalRepoConfig \<Rightarrow> (nat \<Rightarrow> Pr option) \<times> LocalRepoConfig" where
  "getClosedPrs e s =
     (case closedPrList s of
        Some m \<Rightarrow> (m, s)
      | None \<Rightarrow>
          (let s1 = issue_request (GraphqlClosedPrs (repositoryOwner s) (repositoryName s))
                      (s\<lparr>closedPrList := Some Map.empty\<rparr>) in
           case graphql_closedPrs e (log s1) of
             Inl err \<Rightarrow> (Map.empty, s1)
           | Inr nodes \<Rightarrow>
               (if nodes = [] then (Map.empty, s1)
                else (let m = index_by_number (map closed_entry nodes)
                      in (m, s1\<lparr>closedPrList := Some m\<rparr>)))))"

text \<open>\<open>getPr\<close>, the part headed \<open>Harmonise PR values\<close>, for a REST pull request.\<close>

definition harmonise :: "GhRestPr \<Rightarrow> Pr" where
  "harmonise pr =
     (let is_open = (rest_state pr = PrState_Open) in
     \<lparr> number = rest_number pr,
       displayNumber = Some (''Pull Request #'' @ digits (rest_number pr)),
       sourceBranch = (if is_open then Some (rest_head_ref pr) else None),
       targetBranch = None,
       sha = (if is_open then Some (rest_head_sha pr) else None),
       title = rest_title pr,
       body = rest_body pr,
       state = rest_state pr,
       canMerge = (if is_open then Some (rest_mergeable pr = Some True) else None),
       canMergeReason =
         (if is_open \<and> rest_mergeable pr \<noteq> Some True
          then Some (''mergeable = '' @
                 (case rest_mergeable pr of None \<Rightarrow> ''null'' | Some b \<Rightarrow> ''false''))
          else None),
       isConflicted =
         (if is_open \<and> rest_mergeable_state pr = Some ''dirty'' then Some True else None),
       labels = None,
       hasAssignees = None,
       hasReviewers = None,
       createdAt = None,
       closedAt = None,
       sourceRepo = None,
       comments = [] \<rparr>)"

text \<open>
  \<open>getPr(prNo)\<close>: a falsy number returns null at once; then the open list, the closed
  list, and at last the pull request itself, whose failure is thrown to the caller.
\<close>

definition getPr ::
  "env \<Rightarrow> nat \<Rightarrow> LocalRepoConfig \<Rightarrow> (js_error + Pr option) \<times> LocalRepoConfig" where
  "getPr e prNo s =
     (if prNo = 0 then (Inr None, s)
      else
        (let (openPrs, s1) = getOpenPrs e s in
         case openPrs prNo of
           Some openPr \<Rightarrow> (Inr (Some openPr), s1)
         | None \<Rightarrow>
             (let (closedPrs, s2) = getClosedPrs e s1 in
              case closedPrs prNo of
                Some closedPr \<Rightarrow> (Inr (Some closedPr), s2)
              | None \<Rightarrow>
                  (let s3 = issue_request (GetPull (target_repo s2) prNo) s2 in
                   case rest_pull e (log s3) of
                     Inl err \<Rightarrow> (Inl err, s3)
                   | Inr None \<Rightarrow> (Inr None, s3)
                   | Inr (Some pr) \<Rightarrow> (Inr (Some (harmonise pr)), s3)))))"

text \<open>
  \<open>getBranchPr(branchName)\<close>. \<open>title.replace(/ - autoclosed$/, '')\<close> removes the suffix
  at the end of the title, which is there when the replacement is reached.
\<close>

definition REOPEN_THRESHOLD_MILLIS :: int where
  "REOPEN_THRESHOLD_MILLIS = 1000 * 60 * 60 * 24 * 7"

definition strip_autoclosed :: "string \<Rightarrow> string" where
  "strip_autoclosed t =
     (if endsWith t '' - autoclosed''
      then take (length t - length '' - autoclosed'') t else t)"

text \<open>\<open>config.branchPrs[branchName] = await getPr(n); return config.branchPrs[branchName]\<close>\<close>

definition remember_branchPr ::
  "env \<Rightarrow> string \<Rightarrow> nat \<Rightarrow> LocalRepoConfig \<Rightarrow> (js_error + Pr option) \<times> LocalRepoConfig" where
  "remember_branchPr e branchName n s =
     (case getPr e n s of
        (Inl err, s1) \<Rightarrow> (Inl err, s1)
      | (Inr p, s1) \<Rightarrow> (Inr p, s1\<lparr>branchPrs := (branchPrs s1)(branchName := p)\<rparr>))"

text \<open>The reopening of an autoclosed pull request, from \<open>const { sha, number }\<close> on.\<close>

definition reopen_autoclosed ::
  "env \<Rightarrow> string \<Rightarrow> Pr \<Rightarrow> LocalRepoConfig \<Rightarrow> (js_error + Pr option) \<times> LocalRepoConfig" where
  "reopen_autoclosed e branchName autoclosedPr s =
     (case remote_write e
             (PostRef (repository s) (''refs/heads/'' @ branchName) (sha autoclosedPr)) s of
        (Some err, s1) \<Rightarrow> (Inr None, s1)
      | (None, s1) \<Rightarrow>
          (case remote_write e
                  (PatchPull (repository s) (number autoclosedPr) ''open''
                     (strip_autoclosed (title autoclosedPr))) s1 of
             (Some err, s2) \<Rightarrow> (Inr None, s2)
           | (None, s2) \<Rightarrow>
               remember_branchPr e branchName (number autoclosedPr)
                 (s2\<lparr>openPrList := None,
                     closedPrList :=
                       (case closedPrList s2 of
                          None \<Rightarrow> None
                        | Some m \<Rightarrow> Some (m(number autoclosedPr := None)))\<rparr>)))"

definition getBranchPr ::
  "env \<Rightarrow> string \<Rightarrow> LocalRepoConfig \<Rightarrow> (js_error + Pr option) \<times> LocalRepoConfig" where
  "getBranchPr e branchName s =
     (case branchPrs s branchName of
        Some p \<Rightarrow> (Inr (Some p), s)
      | None \<Rightarrow>
          (case findPr e branchName None (Some PrState_Open) s of
             (Inl err, s1) \<Rightarrow> (Inl err, s1)
           | (Inr (Some openPr), s1) \<Rightarrow> remember_branchPr e branchName (number openPr) s1
           | (Inr None, s1) \<Rightarrow>
               (case findPr e branchName None (Some PrState_Closed) s1 of
                  (Inl err, s2) \<Rightarrow> (Inl err, s2)
                | (Inr None, s2) \<Rightarrow> (Inr None, s2)
                | (Inr (Some autoclosedPr), s2) \<Rightarrow>
                    (if endsWith (title autoclosedPr) '' - autoclosed'' \<and>
                        truthy (closedAt autoclosedPr)
                     then
                       (case fromISO e (the (closedAt autoclosedPr)) of
                          None \<Rightarrow> reopen_autoclosed e branchName autoclosedPr s2
                        | Some closed \<Rightarrow>
                            (if now e - closed > REOPEN_THRESHOLD_MILLIS
                             then (Inr None, s2)
                             else reopen_autoclosed e branchName autoclosedPr s2))
                     else (Inr None, s2)))))"

section \<open>Branch status\<close>

text \<open>\<open>escapeHash\<close>: every \<open>#\<close> becomes \<open>%23\<close>.\<close>

definition escapeHash :: "string \<Rightarrow> string" where
  "escapeHash input = concat (map (\<lambda>c. if c = CHR ''#'' then ''%23'' else [c]) input)"

text \<open>\<open>getBranchStatus\<close> from \<open>if (checkRuns.length === 0)\<close> on.\<close>

definition aggregate_status :: "CombinedBranchStatus \<Rightarrow> CheckRun list \<Rightarrow> BranchStatus" where
  "aggregate_status commitStatus checkRuns =
     (if length checkRuns = 0 then
        (if combined_state commitStatus = ''success'' then green
         else if combined_state commitStatus = ''failure'' then red
         else yellow)
      else if combined_state commitStatus = ''failure'' \<or>
              list_ex (\<lambda>run. run_conclusion run = Some ''failure'') checkRuns then red
      else if (combined_state commitStatus = ''success'' \<or>
               length (combined_statuses commitStatus) = 0) \<and>
              list_all (\<lambda>run. run_conclusion run \<in>
                          set [Some ''skipped'', Some ''neutral'', Some ''success'']) checkRuns
           then green
      else yellow)"

text \<open>
  \<open>getBranchStatus(branchName)\<close>: a 404 on the combined status becomes
  \<open>REPOSITORY_CHANGED\<close>; a failure of the check-runs request is swallowed unless it is
  an \<open>ExternalHostError\<close>.
\<close>

definition getBranchStatus ::
  "env \<Rightarrow> string \<Rightarrow> LocalRepoConfig \<Rightarrow> (js_error + BranchStatus) \<times> LocalRepoConfig" where
  "getBranchStatus e branchName s =
     (let s1 = issue_request (GetStatus (repository s) (escapeHash branchName)) s in
      case rest_status e (log s1) of
        Inl err \<Rightarrow>
          (if err_statusCode err = Some 404 then (Inl (new_Error REPOSITORY_CHANGED), s1)
           else (Inl err, s1))
      | Inr commitStatus \<Rightarrow>
          (let s2 = issue_request (GetCheckRuns (repository s) (escapeHash branchName)) s1 in
           case rest_checkRuns e (log s2) of
             Inl err \<Rightarrow>
               (if is_ExternalHostError err then (Inl err, s2)
                else (Inr (aggregate_status commitStatus []), s2))
           | Inr checkRuns \<Rightarrow> (Inr (aggregate_status commitStatus checkRuns), s2)))"

section \<open>Issues\<close>

text \<open>\<open>getIssues\<close> lowers the state of every issue of the query.\<close>

definition getIssues ::
  "env \<Rightarrow> LocalRepoConfig \<Rightarrow> (js_error + Issue list) \<times> LocalRepoConfig" where
  "getIssues e s =
     (let s1 = issue_request
                 (GraphqlIssues (repositoryOwner s) (repositoryName s) (renovateUsername s)) s in
      case graphql_issues e (log s1) of
        Inl err \<Rightarrow> (Inl err, s1)
      | Inr result \<Rightarrow>
          (Inr (map (\<lambda>issue. issue\<lparr>issue_state := toLowerCase (issue_state issue)\<rparr>) result),
           s1))"

definition getIssueList ::
  "env \<Rightarrow> LocalRepoConfig \<Rightarrow> (js_error + Issue list) \<times> LocalRepoConfig" where
  "getIssueList e s =
     (if hasIssuesEnabled s = Some False then (Inr [], s)
      else case issueList s of
        Some l \<Rightarrow> (Inr l, s)
      | None \<Rightarrow>
          (case getIssues e s of
             (Inl err, s1) \<Rightarrow> (Inl err, s1)
           | (Inr l, s1) \<Rightarrow> (Inr l, s1\<lparr>issueList := Some l\<rparr>)))"

definition closeIssue ::
  "env \<Rightarrow> nat \<Rightarrow> LocalRepoConfig \<Rightarrow> js_error option \<times> LocalRepoConfig" where
  "closeIssue e issueNumber s =
     remote_write e (PatchIssue (target_repo s) issueNumber ''closed'' None None None) s"

text \<open>
  The loop \<open>for (const i of issues)\<close> of \<open>ensureIssue\<close>: every open issue other than the
  chosen one is closed, and the first failure ends the loop.
\<close>

fun close_duplicates ::
  "env \<Rightarrow> nat \<Rightarrow> Issue list \<Rightarrow> LocalRepoConfig \<Rightarrow> js_error option \<times> LocalRepoConfig" where
  "close_duplicates e n [] s = (None, s)"
| "close_duplicates e n (i # rest) s =
     (if issue_state i = ''open'' \<and> issue_number i \<noteq> n then
        (case closeIssue e (issue_number i) s of
           (Some err, s1) \<Rightarrow> (Some err, s1)
         | (None, s1) \<Rightarrow> close_duplicates e n rest s1)
      else close_duplicates e n rest s)"

record EnsureIssueConfig =
  ei_title :: string
  ei_reuseTitle :: "string option"
  ei_body :: string
  ei_labels :: "string list option"
  ei_once :: "bool option"
  ei_shouldReOpen :: "bool option"

text \<open>\<open>ensureIssue\<close> from \<open>await githubApi.postJson\<close> on: the issue is created.\<close>

definition create_issue ::
  "env \<Rightarrow> EnsureIssueConfig \<Rightarrow> LocalRepoConfig
     \<Rightarrow> EnsureIssueResult option \<times> LocalRepoConfig" where
  "create_issue e c s =
     (case remote_write e
             (PostIssue (target_repo s) (ei_title c) (sanitize e (ei_body c))
                (case ei_labels c of None \<Rightarrow> [] | Some ls \<Rightarrow> ls)) s of
        (Some err, s1) \<Rightarrow> (None, s1)
      | (None, s1) \<Rightarrow> (Some created, s1\<lparr>issueList := None\<rparr>))"

text \<open>
  \<open>ensureIssue\<close>. \<open>once\<close> defaults to false and \<open>shouldReOpen\<close> to true. Every error
  thrown inside the \<open>try\<close> is logged and the function returns null.
\<close>

definition ensureIssue ::
  "env \<Rightarrow> EnsureIssueConfig \<Rightarrow> LocalRepoConfig
     \<Rightarrow> EnsureIssueResult option \<times> LocalRepoConfig" where
  "ensureIssue e c s =
     (if hasIssuesEnabled s = Some False then (None, s)
      else
        (let body' = sanitize e (ei_body c);
             once = (ei_once c = Some True);
             shouldReOpen = (ei_shouldReOpen c \<noteq> Some False)
         in
         case getIssueList e s of
           (Inl err, s1) \<Rightarrow> (None, s1)
         | (Inr issueList', s1) \<Rightarrow>
             (let byTitle = filter (\<lambda>i. issue_title i = ei_title c) issueList';
                  issues = (if byTitle = []
                            then filter (\<lambda>i. Some (issue_title i) = ei_reuseTitle c) issueList'
                            else byTitle)
              in
              if issues \<noteq> [] then
                (case (case find (\<lambda>i. issue_state i = ''open'') issues of
                         Some i \<Rightarrow> Some i
                       | None \<Rightarrow> (if once then None else Some (last issues))) of
                   None \<Rightarrow> (None, s1)
                 | Some issue \<Rightarrow>
                     (case close_duplicates e (issue_number issue) issues s1 of
                        (Some err, s2) \<Rightarrow> (None, s2)
                      | (None, s2) \<Rightarrow>
                          (let s3 = issue_request
                                      (GetIssue (target_repo s2) (issue_number issue)) s2 in
                           case rest_issue e (log s3) of
                             Inl err \<Rightarrow> (None, s3)
                           | Inr issueBody \<Rightarrow>
                               (if issue_title issue = ei_title c \<and> issueBody = body' \<and>
                                   issue_state issue = ''open''
                                then (None, s3)
                                else if shouldReOpen then
                                  (case remote_write e
                                          (PatchIssue (target_repo s3) (issue_number issue)
                                             ''open'' (Some body') (Some (ei_title c))
                                             (ei_labels c)) s3 of
                                     (Some err, s4) \<Rightarrow> (None, s4)
                                   | (None, s4) \<Rightarrow> (Some updated, s4))
                                else create_issue e c s3))))
              else create_issue e c s1)))"

section \<open>Comments\<close>







section \<open>Session initialization\<close>





section \<open>Reading the log\<close>

text \<open>The requests a call has added to the log of the session it started from.\<close>

definition issued :: "LocalRepoConfig \<Rightarrow> LocalRepoConfig \<Rightarrow> request list" where
  "issued s s' = drop (length (log s)) (log s')"

text \<open>The merge methods of the merge requests of a log, in order.\<close>

fun merge_methods :: "request list \<Rightarrow> string list" where
  "merge_methods [] = []"
| "merge_methods (PutMerge repo n m # rs) = m # merge_methods rs"
| "merge_methods (r # rs) = merge_methods rs"

text \<open>
  The check of the reviews in \<open>mergePr\<close>: the session it leaves behind, and whether it lets the
  merge go on (no reviews required, or an approving review among those fetched).
\<close>

definition after_reviews :: "nat \<Rightarrow> LocalRepoConfig \<Rightarrow> LocalRepoConfig" where
  "after_reviews prNo s =
     (if prReviewsRequired s then issue_request (GetReviews (target_repo s) prNo) s else s)"

definition reviews_pass :: "env \<Rightarrow> nat \<Rightarrow> LocalRepoConfig \<Rightarrow> bool" where
  "reviews_pass e prNo s =
     (if prReviewsRequired s then
        (case rest_reviews e (log (after_reviews prNo s)) of
           Inl err \<Rightarrow> False
         | Inr reviews \<Rightarrow> list_ex (\<lambda>review. review = ''APPROVED'') reviews)
      else True)"

text \<open>
  The fallback sequence in the words of the specification, for the merge requests
  \<open>fb\<close> issued after the log \<open>L\<close> with result \<open>r\<close>: the strategies come in the order
  rebase, squash, merge; an attempt is followed by another exactly when it failed; the
  result is true exactly when the last attempt succeeded.
\<close>

definition fallback_sequence ::
  "env \<Rightarrow> request list \<Rightarrow> (string \<Rightarrow> request) \<Rightarrow> bool \<Rightarrow> string list \<Rightarrow> bool" where
  "fallback_sequence e L put r fb =
     ((fb = [''rebase''] \<or> fb = [''rebase'', ''squash''] \<or>
       fb = [''rebase'', ''squash'', ''merge'']) \<and>
      (\<forall>i < length fb.
          (rest_write e (L @ map put (take (Suc i) fb)) = None) = (r \<and> Suc i = length fb)) \<and>
      (\<not> r \<longrightarrow> fb = [''rebase'', ''squash'', ''merge'']))"

section \<open>Example sessions\<close>

definition quiet_env :: env where
  "quiet_env =
     \<lparr> graphql_repo = (\<lambda>h. Inr None),
       graphql_openPrs = (\<lambda>h. Inr []),
       graphql_closedPrs = (\<lambda>h. Inr []),
       graphql_issues = (\<lambda>h. Inr []),
       rest_pulls = (\<lambda>h. Inr []),
       rest_pull = (\<lambda>h. Inr None),
       rest_status = (\<lambda>h. Inr \<lparr>combined_state = ''pending'', combined_statuses = []\<rparr>),
       rest_checkRuns = (\<lambda>h. Inr []),
       rest_issue = (\<lambda>h. Inr []),
       rest_comments = (\<lambda>h. Inr []),
       rest_reviews = (\<lambda>h. Inr []),
       rest_write = (\<lambda>h. None),
       sanitize = (\<lambda>x. x),
       fromISO = (\<lambda>t. None),
       now = 0 \<rparr>"

definition fresh_session :: LocalRepoConfig where
  "fresh_session =
     \<lparr> repository = ''acme/app'',
       parentRepo = None,
       repositoryOwner = ''acme'',
       repositoryName = ''app'',
       defaultBranch = Some ''main'',
       forkMode = False,
       forkToken = None,
       ignorePrAuthor = False,
       renovateUsername = Some ''renovate-bot'',
       mergeMethod = None,
       autoMergeAllowed = None,
       hasIssuesEnabled = Some True,
       prReviewsRequired = False,
       issueList = None,
       prList = None,
       openPrList = None,
       closedPrList = None,
       branchPrs = (\<lambda>b. None),
       log = [] \<rparr>"

text \<open>GitHub refuses the first merge request with 405 and accepts every later one.\<close>

definition error_405 :: js_error where
  "error_405 = Error (Text ''Response code 405 (Method Not Allowed)'') (Some 405) None"

definition refuse_first_merge :: env where
  "refuse_first_merge =
     quiet_env\<lparr>rest_write := (\<lambda>h. if length (merge_methods h) = 1 then Some error_405 else None)\<rparr>"

definition rebase_session :: LocalRepoConfig where
  "rebase_session = fresh_session\<lparr>mergeMethod := Some ''rebase''\<rparr>"

text \<open>
  Reviews are required and one of them approves; GitHub refuses the first merge request
  with 405 and accepts every later one.
\<close>

definition approving_env :: env where
  "approving_env =
     refuse_first_merge\<lparr>rest_reviews := (\<lambda>h. Inr [''COMMENTED'', ''APPROVED''])\<rparr>"

definition reviewed_session :: LocalRepoConfig where
  "reviewed_session = rebase_session\<lparr>prReviewsRequired := True\<rparr>"

text \<open>Reviews are required, none was given, and no merge method was detected.\<close>

definition unreviewed_session :: LocalRepoConfig where
  "unreviewed_session = fresh_session\<lparr>prReviewsRequired := True\<rparr>"

text \<open>
  A branch without legacy statuses, for which GitHub reports the combined state
  \<open>pending\<close>, and with one successful check run.
\<close>

definition checks_only_env :: env where
  "checks_only_env =
     quiet_env\<lparr>rest_checkRuns := (\<lambda>h. Inr
        [\<lparr>run_name = ''build'', run_status = ''completed'',
          run_conclusion = Some ''success''\<rparr>])\<rparr>"

text \<open>The same check run beside a legacy status that is still pending.\<close>

definition pending_status_env :: env where
  "pending_status_env =
     checks_only_env\<lparr>rest_status := (\<lambda>h. Inr
        \<lparr>combined_state = ''pending'',
         combined_statuses = [\<lparr>status_context = ''ci/legacy'', status_state = ''pending''\<rparr>]\<rparr>)\<rparr>"

text \<open>
  Pull requests as GitHub lists them: one opened by a human, one whose author is gone
  (\<open>user\<close> is null), and one of the bot that was merged.
\<close>

definition alice_pr :: GhRestPr where
  "alice_pr =
     \<lparr> rest_number = 5, rest_head_ref = ''feature/login'', rest_head_sha = ''a1b2c3'',
       rest_head_repo = Some ''acme/app'', rest_title = ''Add login page'',
       rest_body = None, rest_state = ''open'', rest_merged_at = None,
       rest_created_at = Some ''2021-02-01T10:00:00Z'', rest_closed_at = None,
       rest_user_login = Some ''alice'', rest_mergeable = None,
       rest_mergeable_state = None \<rparr>"

definition ghost_pr :: GhRestPr where
  "ghost_pr =
     \<lparr> rest_number = 6, rest_head_ref = ''fix/typo'', rest_head_sha = ''d4e5f6'',
       rest_head_repo = Some ''acme/app'', rest_title = ''Fix typo'',
       rest_body = None, rest_state = ''open'', rest_merged_at = None,
       rest_created_at = Some ''2021-02-02T10:00:00Z'', rest_closed_at = None,
       rest_user_login = None, rest_mergeable = None,
       rest_mergeable_state = None \<rparr>"

definition merged_pr :: GhRestPr where
  "merged_pr =
     \<lparr> rest_number = 7, rest_head_ref = ''renovate/lodash'', rest_head_sha = ''0a1b2c'',
       rest_head_repo = Some ''acme/app'', rest_title = ''Update dependency lodash'',
       rest_body = None, rest_state = ''closed'',
       rest_merged_at = Some ''2021-02-03T12:00:00Z'',
       rest_created_at = Some ''2021-02-03T10:00:00Z'',
       rest_closed_at = Some ''2021-02-03T12:00:00Z'',
       rest_user_login = Some ''renovate-bot'', rest_mergeable = None,
       rest_mergeable_state = None \<rparr>"

definition pulls_env :: env where
  "pulls_env = quiet_env\<lparr>rest_pulls := (\<lambda>h. Inr [alice_pr, ghost_pr, merged_pr])\<rparr>"

text \<open>A session that was given no user name of the bot.\<close>

definition anonymous_session :: LocalRepoConfig where
  "anonymous_session = fresh_session\<lparr>renovateUsername := None\<rparr>"






text \<open>
  What \<open>ensureComment\<close> is to do, in the words of the specification. With a topic, the
  body is the header followed by the content, and the comments that start with the
  header match: without a match the comment is created, with a match that differs it is
  updated, with a match that is identical nothing is done. Without a topic, the comments
  whose whole body is the content match, and the comment is created or nothing is done.
  Where several comments match, the last one counts, and a match with the id 0 counts
  as none.
\<close>

datatype comment_action = Create string | Update nat string | UpToDate




text \<open>
  An autoclosed pull request of the bot, as GitHub lists it and as GitHub shows it among
  the open ones once it is reopened under its old title.
\<close>

definition autoclosed_pr :: GhRestPr where
  "autoclosed_pr =
     \<lparr> rest_number = 12, rest_head_ref = ''renovate/lodash'', rest_head_sha = ''c0ffee'',
       rest_head_repo = Some ''acme/app'', rest_title = ''Update dep - autoclosed'',
       rest_body = None, rest_state = ''closed'', rest_merged_at = None,
       rest_created_at = Some ''2021-02-20T00:00:00.000Z'',
       rest_closed_at = Some ''2021-03-01T00:00:00.000Z'',
       rest_user_login = Some ''renovate-bot'', rest_mergeable = None,
       rest_mergeable_state = None \<rparr>"

definition reopened_node :: GhGraphQlPr where
  "reopened_node =
     \<lparr> gq_number = 12, gq_state = ''OPEN'', gq_title = ''Update dep'', gq_body = None,
       gq_headRefName = ''renovate/lodash'', gq_baseRefName = Some ''main'',
       gq_mergeStateStatus = ''CLEAN'', gq_reviews = 0, gq_labels = None,
       gq_assignees = None, gq_reviewRequests = None, gq_comments = [] \<rparr>"

text \<open>
  GitHub lists the autoclosed pull request, accepts every write, and then shows the
  pull request among the open ones; the pull request was closed at 1614556800000
  milliseconds, and the clock is given in milliseconds after that.
\<close>

definition autoclosed_env :: "int \<Rightarrow> env" where
  "autoclosed_env ago =
     quiet_env\<lparr>rest_pulls := (\<lambda>h. Inr [autoclosed_pr]),
       graphql_openPrs := (\<lambda>h. Inr [reopened_node]),
       fromISO := (\<lambda>t. if t = ''2021-03-01T00:00:00.000Z'' then Some 1614556800000 else None),
       now := 1614556800000 + ago\<rparr>"

text \<open>
  The session in which \<open>reopen_autoclosed\<close> fetches the pull request again: the open
  list is dropped, and the closed list has lost the pull request.
\<close>

definition forget_lists :: "nat \<Rightarrow> LocalRepoConfig \<Rightarrow> LocalRepoConfig" where
  "forget_lists n s =
     s\<lparr>openPrList := None,
       closedPrList := (case closedPrList s of
                          None \<Rightarrow> None
                        | Some m \<Rightarrow> Some (m(n := None)))\<rparr>"

text \<open>The requests that create or change something at GitHub.\<close>

fun is_write :: "request \<Rightarrow> bool" where
  "is_write (PostRef repo ref commit) = True"
| "is_write (PatchPull repo n st t) = True"
| "is_write (PatchIssue repo n st b t ls) = True"
| "is_write (PostIssue repo t b ls) = True"
| "is_write (PostComment repo n b) = True"
| "is_write (PatchComment repo n b) = True"
| "is_write (PutMerge repo n m) = True"
| "is_write r = False"

text \<open>The issue that \<open>ensureIssue\<close> is asked for twice.\<close>

definition dashboard :: EnsureIssueConfig where
  "dashboard =
     \<lparr> ei_title = ''Dependency Dashboard'', ei_reuseTitle = None,
       ei_body = ''This issue lists the updates.'', ei_labels = Some [''renovate''],
       ei_once = None, ei_shouldReOpen = None \<rparr>"




text \<open>
  The issue list of the session holds the issue as closed; GitHub does what it is
  asked and gives the body that was last patched.
\<close>

fun patched_body :: "request list \<Rightarrow> string option" where
  "patched_body [] = None"
| "patched_body (PatchIssue repo n st (Some b) t ls # rs) =
     (case patched_body rs of None \<Rightarrow> Some b | Some b' \<Rightarrow> Some b')"
| "patched_body (r # rs) = patched_body rs"

definition reopening_env :: env where
  "reopening_env =
     quiet_env\<lparr>graphql_issues := (\<lambda>h. Inr
        [\<lparr>issue_number = 1, issue_title = ''Dependency Dashboard'', issue_state = ''CLOSED''\<rparr>]),
       rest_issue := (\<lambda>h. case patched_body h of
          None \<Rightarrow> Inr ''An old body.''
        | Some b \<Rightarrow> Inr b)\<rparr>"

section \<open>Facts about the session and its log\<close>

lemma target_repo_log [simp]: "target_repo (s\<lparr>log := l\<rparr>) = target_repo s"
  by (simp add: target_repo_def split: option.splits)

lemma target_repo_issue_request [simp]: "target_repo (issue_request r s) = target_repo s"
  by (simp add: issue_request_def)

lemma log_issue_request [simp]: "log (issue_request r s) = log s @ [r]"
  by (simp add: issue_request_def)

lemma target_repo_issueList [simp]: "target_repo (s\<lparr>issueList := l\<rparr>) = target_repo s"
  by (simp add: target_repo_def split: option.splits)

section \<open>Properties of the merge orchestrator\<close>

lemma target_repo_after_reviews: "target_repo (after_reviews prNo s) = target_repo s"
  by (simp add: after_reviews_def)

lemma mergeMethod_after_reviews: "mergeMethod (after_reviews prNo s) = mergeMethod s"
  by (simp add: after_reviews_def issue_request_def)

lemma mergePr_reviews_passed:
  "reviews_pass e prNo s \<Longrightarrow>
   mergePr e prNo s = (case mergePr_attempts e prNo (after_reviews prNo s) of (r, s2) \<Rightarrow> (Inr r, s2))"
proof (cases "prReviewsRequired s")
  case False
  then show ?thesis by (simp add: mergePr_def after_reviews_def)
next
  case True
  assume "reviews_pass e prNo s"
  then obtain reviews where
    "rest_reviews e (log (issue_request (GetReviews (target_repo s) prNo) s)) = Inr reviews"
    "list_ex (\<lambda>review. review = ''APPROVED'') reviews"
    using True by (auto simp: reviews_pass_def after_reviews_def split: sum.splits)
  then show ?thesis using True by (simp add: mergePr_def after_reviews_def Let_def)
qed


lemma merge_methods_PutMerge: "merge_methods (map (PutMerge repo n) ms) = ms"
  by (induction ms) auto

lemma all_less_3: "(\<forall>i < Suc (Suc (Suc 0)). P i) = (P 0 \<and> P (Suc 0) \<and> P (Suc (Suc 0)))"
  by (auto simp: less_Suc_eq)

lemma all_less_2: "(\<forall>i < Suc (Suc 0). P i) = (P 0 \<and> P (Suc 0))"
  by (auto simp: less_Suc_eq)

lemma fallback_spec:
  "\<exists>r fb. mergePr_fallback e prNo s =
             (r, s\<lparr>log := log s @ map (PutMerge (target_repo s) prNo) fb\<rparr>) \<and>
      fallback_sequence e (log s) (PutMerge (target_repo s) prNo) r fb"
proof -
  let ?P = "PutMerge (target_repo s) prNo"
  let ?a1 = "rest_write e (log s @ [?P ''rebase''])"
  let ?a2 = "rest_write e (log s @ [?P ''rebase'', ?P ''squash''])"
  let ?a3 = "rest_write e (log s @ [?P ''rebase'', ?P ''squash'', ?P ''merge''])"
  consider (first) "?a1 = None"
    | (second) "?a1 \<noteq> None" "?a2 = None"
    | (third) "?a1 \<noteq> None" "?a2 \<noteq> None" "?a3 = None"
    | (none) "?a1 \<noteq> None" "?a2 \<noteq> None" "?a3 \<noteq> None"
    by blast
  then show ?thesis
  proof cases
    case first
    then have "mergePr_fallback e prNo s = (True, s\<lparr>log := log s @ map ?P [''rebase'']\<rparr>)"
      by (simp add: mergePr_fallback_def remote_write_def issue_request_def)
    moreover have "fallback_sequence e (log s) ?P True [''rebase'']"
      using first by (simp add: fallback_sequence_def)
    ultimately show ?thesis by blast
  next
    case second
    then have "mergePr_fallback e prNo s =
        (True, s\<lparr>log := log s @ map ?P [''rebase'', ''squash'']\<rparr>)"
      by (auto simp: mergePr_fallback_def remote_write_def issue_request_def)
    moreover have "fallback_sequence e (log s) ?P True [''rebase'', ''squash'']"
      using second by (simp add: fallback_sequence_def all_less_2)
    ultimately show ?thesis by blast
  next
    case third
    then have "mergePr_fallback e prNo s =
        (True, s\<lparr>log := log s @ map ?P [''rebase'', ''squash'', ''merge'']\<rparr>)"
      by (auto simp: mergePr_fallback_def remote_write_def issue_request_def)
    moreover have "fallback_sequence e (log s) ?P True [''rebase'', ''squash'', ''merge'']"
      using third by (simp add: fallback_sequence_def all_less_3)
    ultimately show ?thesis by blast
  next
    case none
    then have "mergePr_fallback e prNo s =
        (False, s\<lparr>log := log s @ map ?P [''rebase'', ''squash'', ''merge'']\<rparr>)"
      by (auto simp: mergePr_fallback_def remote_write_def issue_request_def)
    moreover have "fallback_sequence e (log s) ?P False [''rebase'', ''squash'', ''merge'']"
      using none by (simp add: fallback_sequence_def all_less_3)
    ultimately show ?thesis by blast
  qed
qed

text \<open>The outcome of the attempts in the words of the specification.\<close>

lemma mergePr_attempts_spec:
  "\<exists>r ms. mergePr_attempts e prNo s =
             (r, s\<lparr>log := log s @ map (PutMerge (target_repo s) prNo) ms\<rparr>) \<and>
     (if truthy (mergeMethod s) then
        (case rest_write e (log s @ [PutMerge (target_repo s) prNo (the (mergeMethod s))]) of
           None \<Rightarrow> r \<and> ms = [the (mergeMethod s)]
         | Some err \<Rightarrow>
             if err_statusCode err = Some 404 \<or> err_statusCode err = Some 405
             then \<exists>fb. ms = the (mergeMethod s) # fb \<and>
                    fallback_sequence e
                      (log s @ [PutMerge (target_repo s) prNo (the (mergeMethod s))])
                      (PutMerge (target_repo s) prNo) r fb
             else \<not> r \<and> ms = [the (mergeMethod s)])
      else fallback_sequence e (log s) (PutMerge (target_repo s) prNo) r ms)"
proof (cases "truthy (mergeMethod s)")
  case False
  obtain r fb where
    "mergePr_fallback e prNo s = (r, s\<lparr>log := log s @ map (PutMerge (target_repo s) prNo) fb\<rparr>)"
    "fallback_sequence e (log s) (PutMerge (target_repo s) prNo) r fb"
    using fallback_spec [of e prNo s] by blast
  then have "mergePr_attempts e prNo s =
        (r, s\<lparr>log := log s @ map (PutMerge (target_repo s) prNo) fb\<rparr>) \<and>
      fallback_sequence e (log s) (PutMerge (target_repo s) prNo) r fb"
    using False by (simp add: mergePr_attempts_def)
  then show ?thesis
    unfolding if_not_P [OF False] by blast
next
  case True
  let ?d = "the (mergeMethod s)"
  let ?P = "PutMerge (target_repo s) prNo"
  let ?s1 = "issue_request (?P ?d) s"
  have t1: "target_repo ?s1 = target_repo s"
    by simp
  have l1: "log ?s1 = log s @ [?P ?d]"
    by simp
  show ?thesis
    unfolding if_P [OF True]
  proof (cases "rest_write e (log s @ [?P ?d])")
    case None
    then have "mergePr_attempts e prNo s = (True, s\<lparr>log := log s @ map ?P [?d]\<rparr>)"
      using True by (simp add: mergePr_attempts_def remote_write_def issue_request_def)
    then show "\<exists>r ms. mergePr_attempts e prNo s = (r, s\<lparr>log := log s @ map ?P ms\<rparr>) \<and>
        (case rest_write e (log s @ [?P ?d]) of
           None \<Rightarrow> r \<and> ms = [?d]
         | Some err \<Rightarrow>
             if err_statusCode err = Some 404 \<or> err_statusCode err = Some 405
             then \<exists>fb. ms = ?d # fb \<and> fallback_sequence e (log s @ [?P ?d]) ?P r fb
             else \<not> r \<and> ms = [?d])"
      unfolding None by (intro exI [of _ True] exI [of _ "[?d]"]) simp
  next
    case (Some err)
    show "\<exists>r ms. mergePr_attempts e prNo s = (r, s\<lparr>log := log s @ map ?P ms\<rparr>) \<and>
        (case rest_write e (log s @ [?P ?d]) of
           None \<Rightarrow> r \<and> ms = [?d]
         | Some err \<Rightarrow>
             if err_statusCode err = Some 404 \<or> err_statusCode err = Some 405
             then \<exists>fb. ms = ?d # fb \<and> fallback_sequence e (log s @ [?P ?d]) ?P r fb
             else \<not> r \<and> ms = [?d])"
      unfolding Some option.case
    proof (cases "err_statusCode err = Some 404 \<or> err_statusCode err = Some 405")
      case False
      then have "mergePr_attempts e prNo s = (False, s\<lparr>log := log s @ map ?P [?d]\<rparr>)"
        using True Some by (simp add: mergePr_attempts_def remote_write_def issue_request_def)
      then show "\<exists>r ms. mergePr_attempts e prNo s = (r, s\<lparr>log := log s @ map ?P ms\<rparr>) \<and>
          (if err_statusCode err = Some 404 \<or> err_statusCode err = Some 405
             then \<exists>fb. ms = ?d # fb \<and> fallback_sequence e (log s @ [?P ?d]) ?P r fb
             else \<not> r \<and> ms = [?d])"
        unfolding if_not_P [OF False] by (intro exI [of _ False] exI [of _ "[?d]"]) simp
    next
      case retry: True
      obtain r fb where
        fb: "mergePr_fallback e prNo ?s1 = (r, ?s1\<lparr>log := log ?s1 @ map ?P fb\<rparr>)"
        and sq: "fallback_sequence e (log ?s1) ?P r fb"
        using fallback_spec [of e prNo ?s1] unfolding t1 by blast
      have run: "mergePr_attempts e prNo s = (r, s\<lparr>log := log s @ map ?P (?d # fb)\<rparr>)"
        using True Some retry fb
        by (simp add: mergePr_attempts_def remote_write_def issue_request_def)
      have sq': "fallback_sequence e (log s @ [?P ?d]) ?P r fb"
        using sq unfolding l1 .
      show "\<exists>r ms. mergePr_attempts e prNo s = (r, s\<lparr>log := log s @ map ?P ms\<rparr>) \<and>
          (if err_statusCode err = Some 404 \<or> err_statusCode err = Some 405
             then \<exists>fb. ms = ?d # fb \<and> fallback_sequence e (log s @ [?P ?d]) ?P r fb
             else \<not> r \<and> ms = [?d])"
        unfolding if_P [OF retry]
        by (rule exI [of _ r], rule exI [of _ "?d # fb"]) (use run sq' in blast)
    qed
  qed
qed

lemma merge_methods_append:
  "merge_methods (xs @ ys) = merge_methods xs @ merge_methods ys"
  by (induction xs rule: merge_methods.induct) auto

lemma issued_after_reviews:
  assumes "log s' = log (after_reviews prNo s) @ map (PutMerge repo n) ms"
  shows "merge_methods (issued s s') = ms"
  using assms
  by (simp add: issued_def after_reviews_def merge_methods_append merge_methods_PutMerge)

text \<open>
  C9, as the code has it. When the check of the reviews lets the merge go on (no reviews are
  required, or an approving review was fetched): if the attempt with the detected
  method fails with an error other than 404 or 405, \<open>mergePr\<close> returns false and issues
  no further merge request; if that attempt fails with 404 or 405, or no method was
  detected, the fallback strategies follow in the order rebase, squash, merge, the first
  success returns true, and three failures return false.
\<close>

theorem mergePr_fallback_order:
  assumes "reviews_pass e prNo s"
  shows "\<exists>r ms. mergePr e prNo s =
             (Inr r, (after_reviews prNo s)
                       \<lparr>log := log (after_reviews prNo s) @ map (PutMerge (target_repo s) prNo) ms\<rparr>) \<and>
     (if truthy (mergeMethod s) then
        (case rest_write e (log (after_reviews prNo s) @
                 [PutMerge (target_repo s) prNo (the (mergeMethod s))]) of
           None \<Rightarrow> r \<and> ms = [the (mergeMethod s)]
         | Some err \<Rightarrow>
             if err_statusCode err = Some 404 \<or> err_statusCode err = Some 405
             then \<exists>fb. ms = the (mergeMethod s) # fb \<and>
                    fallback_sequence e
                      (log (after_reviews prNo s) @
                         [PutMerge (target_repo s) prNo (the (mergeMethod s))])
                      (PutMerge (target_repo s) prNo) r fb
             else \<not> r \<and> ms = [the (mergeMethod s)])
      else fallback_sequence e (log (after_reviews prNo s)) (PutMerge (target_repo s) prNo) r ms)"
proof -
  let ?g = "after_reviews prNo s"
  let ?P = "PutMerge (target_repo s) prNo"
  obtain r ms where
    run: "mergePr_attempts e prNo ?g = (r, ?g\<lparr>log := log ?g @ map ?P ms\<rparr>)"
    and shape: "if truthy (mergeMethod s) then
        (case rest_write e (log ?g @ [?P (the (mergeMethod s))]) of
           None \<Rightarrow> r \<and> ms = [the (mergeMethod s)]
         | Some err \<Rightarrow>
             if err_statusCode err = Some 404 \<or> err_statusCode err = Some 405
             then \<exists>fb. ms = the (mergeMethod s) # fb \<and>
                    fallback_sequence e (log ?g @ [?P (the (mergeMethod s))]) ?P r fb
             else \<not> r \<and> ms = [the (mergeMethod s)])
      else fallback_sequence e (log ?g) ?P r ms"
    using mergePr_attempts_spec [of e prNo ?g]
    unfolding target_repo_after_reviews mergeMethod_after_reviews by blast
  have whole: "mergePr e prNo s = (Inr r, ?g\<lparr>log := log ?g @ map ?P ms\<rparr>)"
    using mergePr_reviews_passed [OF assms] run by simp
  show ?thesis
    by (rule exI [of _ r], rule exI [of _ ms]) (use whole shape in blast)
qed

text \<open>
  A run of the theorem above: reviews are required and approved, the rebase that was
  detected is refused with 405, and the rebase of the fallback succeeds.
\<close>

theorem mergePr_fallback_order_witness:
  "reviews_pass approving_env 7 reviewed_session \<and>
   (\<exists>r ms. mergePr approving_env 7 reviewed_session =
      (Inr r, (after_reviews 7 reviewed_session)
         \<lparr>log := log (after_reviews 7 reviewed_session) @
                  map (PutMerge (target_repo reviewed_session) 7) ms\<rparr>)) \<and>
   mergePr approving_env 7 reviewed_session =
     (Inr True, reviewed_session\<lparr>log :=
        [GetReviews ''acme/app'' 7, PutMerge ''acme/app'' 7 ''rebase'',
         PutMerge ''acme/app'' 7 ''rebase'']\<rparr>)"
proof -
  have approved: "reviews_pass approving_env 7 reviewed_session"
    by (simp add: reviews_pass_def after_reviews_def approving_env_def reviewed_session_def
        rebase_session_def fresh_session_def refuse_first_merge_def quiet_env_def)
  from mergePr_fallback_order [OF approved]
  obtain r ms where "mergePr approving_env 7 reviewed_session =
      (Inr r, (after_reviews 7 reviewed_session)
         \<lparr>log := log (after_reviews 7 reviewed_session) @
                  map (PutMerge (target_repo reviewed_session) 7) ms\<rparr>)"
    by (elim exE conjE) (rule that)
  then have shape: "\<exists>r ms. mergePr approving_env 7 reviewed_session =
      (Inr r, (after_reviews 7 reviewed_session)
         \<lparr>log := log (after_reviews 7 reviewed_session) @
                  map (PutMerge (target_repo reviewed_session) 7) ms\<rparr>)"
    by (intro exI)
  have run: "mergePr approving_env 7 reviewed_session =
     (Inr True, reviewed_session\<lparr>log :=
        [GetReviews ''acme/app'' 7, PutMerge ''acme/app'' 7 ''rebase'',
         PutMerge ''acme/app'' 7 ''rebase'']\<rparr>)"
    by (simp add: mergePr_def mergePr_attempts_def mergePr_fallback_def remote_write_def
        issue_request_def target_repo_def approving_env_def reviewed_session_def
        rebase_session_def fresh_session_def refuse_first_merge_def quiet_env_def
        error_405_def)
  from approved shape run show ?thesis by (intro conjI)
qed

text \<open>
  C9 as stated fails: no merge method was detected, and no fallback strategy is
  attempted, because reviews are required and no review approves; the call returns
  false without any merge request.
\<close>

theorem mergePr_stops_without_approval:
  "mergeMethod unreviewed_session = None \<and>
   prReviewsRequired unreviewed_session \<and>
   rest_reviews quiet_env [GetReviews ''acme/app'' 7] = Inr [] \<and>
   mergePr quiet_env 7 unreviewed_session =
     (Inr False, unreviewed_session\<lparr>log := [GetReviews ''acme/app'' 7]\<rparr>) \<and>
   merge_methods (issued unreviewed_session (snd (mergePr quiet_env 7 unreviewed_session))) = []"
  by (simp add: mergePr_def issue_request_def target_repo_def issued_def
      unreviewed_session_def fresh_session_def quiet_env_def)

text \<open>
  C1, as the code has it. With the detected method rebase, when the attempt with it
  fails with 405, \<open>mergePr\<close> does not give up: the very next merge request uses rebase
  again, the first strategy of the fixed fallback order, and squash follows only when
  that second rebase fails as well.
\<close>

theorem mergePr_405_retries_rebase:
  assumes approved: "reviews_pass e prNo s"
    and detected: "mergeMethod s = Some ''rebase''"
    and refused: "rest_write e (log (after_reviews prNo s) @
                     [PutMerge (target_repo s) prNo ''rebase'']) = Some err"
    and status: "err_statusCode err = Some 405"
  shows "\<exists>r s' rest. mergePr e prNo s = (Inr r, s') \<and>
           merge_methods (issued s s') = ''rebase'' # ''rebase'' # rest \<and>
           (rest = [] \<or> rest = [''squash''] \<or> rest = [''squash'', ''merge'']) \<and>
           (rest = [] \<longleftrightarrow>
              rest_write e (log (after_reviews prNo s) @
                 [PutMerge (target_repo s) prNo ''rebase'',
                  PutMerge (target_repo s) prNo ''rebase'']) = None)"
proof -
  let ?g = "after_reviews prNo s"
  let ?P = "PutMerge (target_repo s) prNo"
  have d: "truthy (mergeMethod s)" "the (mergeMethod s) = ''rebase''"
    using detected by simp_all
  obtain r ms where
    run: "mergePr_attempts e prNo ?g = (r, ?g\<lparr>log := log ?g @ map ?P ms\<rparr>)"
    and shape: "if truthy (mergeMethod s) then
        (case rest_write e (log ?g @ [?P (the (mergeMethod s))]) of
           None \<Rightarrow> r \<and> ms = [the (mergeMethod s)]
         | Some err \<Rightarrow>
             if err_statusCode err = Some 404 \<or> err_statusCode err = Some 405
             then \<exists>fb. ms = the (mergeMethod s) # fb \<and>
                    fallback_sequence e (log ?g @ [?P (the (mergeMethod s))]) ?P r fb
             else \<not> r \<and> ms = [the (mergeMethod s)])
      else fallback_sequence e (log ?g) ?P r ms"
    using mergePr_attempts_spec [of e prNo ?g]
    unfolding target_repo_after_reviews mergeMethod_after_reviews by blast
  from shape obtain fb where
    ms: "ms = ''rebase'' # fb"
    and sq: "fallback_sequence e (log ?g @ [?P ''rebase'']) ?P r fb"
    unfolding if_P [OF d(1)] d(2) refused option.case using status by auto
  let ?a = "rest_write e (log ?g @ [?P ''rebase'', ?P ''rebase''])"
  from sq have shapes: "fb = [''rebase''] \<or> fb = [''rebase'', ''squash''] \<or>
      fb = [''rebase'', ''squash'', ''merge'']"
    by (simp add: fallback_sequence_def)
  from sq have stop: "\<not> r \<longrightarrow> fb = [''rebase'', ''squash'', ''merge'']"
    by (simp add: fallback_sequence_def)
  from sq have each: "\<forall>i < length fb.
      (rest_write e ((log ?g @ [?P ''rebase'']) @ map ?P (take (Suc i) fb)) = None) =
      (r \<and> Suc i = length fb)"
    by (simp add: fallback_sequence_def)
  have pos: "0 < length fb" and tk: "take (Suc 0) fb = [''rebase'']"
    using shapes by (elim disjE; simp)+
  have "(rest_write e ((log ?g @ [?P ''rebase'']) @ map ?P (take (Suc 0) fb)) = None) =
      (r \<and> Suc 0 = length fb)"
    using each [rule_format, OF pos] .
  then have first: "(?a = None) = (r \<and> Suc 0 = length fb)"
    unfolding tk by simp
  define rest where "rest = tl fb"
  have rest: "fb = ''rebase'' # rest"
    "rest = [] \<or> rest = [''squash''] \<or> rest = [''squash'', ''merge'']"
    using shapes unfolding rest_def by (elim disjE; simp)+
  have len: "(Suc 0 = length fb) = (rest = [])"
    using rest(1) by simp
  have "r \<or> rest \<noteq> []"
    using stop rest(1) by (cases r) simp_all
  then have stops: "rest = [] \<longleftrightarrow> ?a = None"
    unfolding first len by blast
  have whole: "mergePr e prNo s = (Inr r, ?g\<lparr>log := log ?g @ map ?P ms\<rparr>)"
    using mergePr_reviews_passed [OF approved] run by simp
  have "merge_methods (issued s (?g\<lparr>log := log ?g @ map ?P ms\<rparr>)) = ms"
    by (rule issued_after_reviews [where prNo = prNo and repo = "target_repo s" and n = prNo]) simp
  then have trace: "merge_methods (issued s (?g\<lparr>log := log ?g @ map ?P ms\<rparr>)) =
      ''rebase'' # ''rebase'' # rest"
    using ms rest by simp
  show ?thesis
    apply (rule exI [of _ r])
    apply (rule exI [of _ "?g\<lparr>log := log ?g @ map ?P ms\<rparr>"])
    apply (rule exI [of _ rest])
    apply (intro conjI)
       apply (rule whole)
      apply (rule trace)
     apply (rule rest(2))
    apply (rule stops)
    done
qed

text \<open>A run of the theorem above.\<close>

theorem mergePr_405_retries_rebase_witness:
  "reviews_pass approving_env 7 reviewed_session \<and>
   mergeMethod reviewed_session = Some ''rebase'' \<and>
   rest_write approving_env (log (after_reviews 7 reviewed_session) @
       [PutMerge (target_repo reviewed_session) 7 ''rebase'']) = Some error_405 \<and>
   err_statusCode error_405 = Some 405 \<and>
   (\<exists>r s' rest. mergePr approving_env 7 reviewed_session = (Inr r, s') \<and>
      merge_methods (issued reviewed_session s') = ''rebase'' # ''rebase'' # rest)"
proof -
  have approved: "reviews_pass approving_env 7 reviewed_session"
    by (simp add: reviews_pass_def after_reviews_def approving_env_def reviewed_session_def
        rebase_session_def fresh_session_def refuse_first_merge_def quiet_env_def)
  have detected: "mergeMethod reviewed_session = Some ''rebase''"
    by (simp add: reviewed_session_def rebase_session_def fresh_session_def)
  have refused: "rest_write approving_env (log (after_reviews 7 reviewed_session) @
       [PutMerge (target_repo reviewed_session) 7 ''rebase'']) = Some error_405"
    by (simp add: after_reviews_def approving_env_def reviewed_session_def rebase_session_def
        fresh_session_def refuse_first_merge_def quiet_env_def target_repo_def
        issue_request_def)
  have status: "err_statusCode error_405 = Some 405"
    by (simp add: error_405_def)
  from mergePr_405_retries_rebase [OF approved detected refused status]
  have "\<exists>r s' rest. mergePr approving_env 7 reviewed_session = (Inr r, s') \<and>
      merge_methods (issued reviewed_session s') = ''rebase'' # ''rebase'' # rest"
    by blast
  with approved detected refused status show ?thesis
    by (intro conjI)
qed

text \<open>
  C1 as stated fails: after the 405 on the detected rebase the next merge request is a
  rebase, not a squash.
\<close>

theorem mergePr_405_next_attempt_is_rebase:
  "mergeMethod rebase_session = Some ''rebase'' \<and>
   rest_write refuse_first_merge
     (log rebase_session @ [PutMerge (target_repo rebase_session) 1 ''rebase'']) =
     Some error_405 \<and>
   err_statusCode error_405 = Some 405 \<and>
   merge_methods (issued rebase_session (snd (mergePr refuse_first_merge 1 rebase_session))) =
     [''rebase'', ''rebase''] \<and>
   merge_methods (issued rebase_session (snd (mergePr refuse_first_merge 1 rebase_session))) ! 1
     \<noteq> ''squash''"
  by (simp add: mergePr_def mergePr_attempts_def mergePr_fallback_def remote_write_def
      issue_request_def target_repo_def rebase_session_def fresh_session_def
      refuse_first_merge_def quiet_env_def error_405_def issued_def)

section \<open>Properties of the synchronizer: getPr\<close>

text \<open>
  C10. For the falsy pull-request number, 0, \<open>getPr\<close> returns null at once: whatever the
  caches hold and whatever GitHub would answer, the session is left as it was, so
  neither cache was filled, and no request was issued.
\<close>

theorem getPr_falsy_number:
  "getPr e 0 s = (Inr None, s) \<and> issued s (snd (getPr e 0 s)) = []"
  by (simp add: getPr_def issued_def)

section \<open>Properties of the branch status\<close>

lemma getBranchStatus_answered:
  assumes "rest_status e (log s @ [GetStatus (repository s) (escapeHash branchName)]) = Inr cs"
    and "rest_checkRuns e (log s @ [GetStatus (repository s) (escapeHash branchName),
            GetCheckRuns (repository s) (escapeHash branchName)]) = Inr rs"
  shows "getBranchStatus e branchName s =
      (Inr (aggregate_status cs rs),
       s\<lparr>log := log s @ [GetStatus (repository s) (escapeHash branchName),
            GetCheckRuns (repository s) (escapeHash branchName)]\<rparr>)"
  using assms by (simp add: getBranchStatus_def issue_request_def Let_def)

lemma aggregate_no_runs:
  "aggregate_status cs [] =
     (if combined_state cs = ''success'' then green
      else if combined_state cs = ''failure'' then red else yellow)"
  by (simp add: aggregate_status_def)

lemma aggregate_runs:
  assumes "rs \<noteq> []"
  shows "aggregate_status cs rs =
     (if combined_state cs = ''failure'' \<or> (\<exists>run \<in> set rs. run_conclusion run = Some ''failure'')
      then red
      else if (combined_state cs = ''success'' \<or> combined_statuses cs = []) \<and>
              (\<forall>run \<in> set rs. run_conclusion run = Some ''skipped'' \<or>
                 run_conclusion run = Some ''neutral'' \<or> run_conclusion run = Some ''success'')
      then green else yellow)"
  using assms by (simp add: aggregate_status_def list_ex_iff list_all_iff)

text \<open>
  C3, as the code has it. When GitHub answers both requests, with the combined status
  \<open>cs\<close> and the check runs \<open>rs\<close>: without check runs the result is green exactly for the
  legacy state success, red exactly for failure, yellow otherwise. With check runs it is
  red exactly when the legacy state is failure or some run concluded failure; green
  exactly when the legacy state is not failure, it is success or there are no legacy
  statuses, and every run concluded skipped, neutral or success; yellow otherwise. So
  the legacy state pending with successful check runs only gives yellow exactly when
  there is a legacy status, and green when there is none.
\<close>

theorem getBranchStatus_aggregation:
  assumes status: "rest_status e (log s @ [GetStatus (repository s) (escapeHash branchName)]) = Inr cs"
    and runs: "rest_checkRuns e (log s @ [GetStatus (repository s) (escapeHash branchName),
            GetCheckRuns (repository s) (escapeHash branchName)]) = Inr rs"
  shows "\<exists>st s'. getBranchStatus e branchName s = (Inr st, s') \<and>
     (rs = [] \<longrightarrow>
        (st = green \<longleftrightarrow> combined_state cs = ''success'') \<and>
        (st = red \<longleftrightarrow> combined_state cs = ''failure'') \<and>
        (st = yellow \<longleftrightarrow> combined_state cs \<noteq> ''success'' \<and> combined_state cs \<noteq> ''failure'')) \<and>
     (rs \<noteq> [] \<longrightarrow>
        (st = red \<longleftrightarrow>
           combined_state cs = ''failure'' \<or>
           (\<exists>run \<in> set rs. run_conclusion run = Some ''failure'')) \<and>
        (st = green \<longleftrightarrow>
           combined_state cs \<noteq> ''failure'' \<and>
           (combined_state cs = ''success'' \<or> combined_statuses cs = []) \<and>
           (\<forall>run \<in> set rs. run_conclusion run = Some ''skipped'' \<or>
              run_conclusion run = Some ''neutral'' \<or> run_conclusion run = Some ''success'')) \<and>
        (st = yellow \<longleftrightarrow> st \<noteq> red \<and> st \<noteq> green)) \<and>
     (rs \<noteq> [] \<and> combined_state cs = ''pending'' \<and>
      (\<forall>run \<in> set rs. run_conclusion run = Some ''success'') \<longrightarrow>
        (st = yellow \<longleftrightarrow> combined_statuses cs \<noteq> []) \<and>
        (st = green \<longleftrightarrow> combined_statuses cs = []))"
proof -
  let ?st = "aggregate_status cs rs"
  have run: "getBranchStatus e branchName s =
      (Inr ?st, s\<lparr>log := log s @ [GetStatus (repository s) (escapeHash branchName),
            GetCheckRuns (repository s) (escapeHash branchName)]\<rparr>)"
    by (rule getBranchStatus_answered [OF status runs])
  have none: "rs = [] \<longrightarrow>
        (?st = green \<longleftrightarrow> combined_state cs = ''success'') \<and>
        (?st = red \<longleftrightarrow> combined_state cs = ''failure'') \<and>
        (?st = yellow \<longleftrightarrow> combined_state cs \<noteq> ''success'' \<and> combined_state cs \<noteq> ''failure'')"
    by (simp add: aggregate_no_runs)
  have some: "rs \<noteq> [] \<longrightarrow>
        (?st = red \<longleftrightarrow>
           combined_state cs = ''failure'' \<or>
           (\<exists>run \<in> set rs. run_conclusion run = Some ''failure'')) \<and>
        (?st = green \<longleftrightarrow>
           combined_state cs \<noteq> ''failure'' \<and>
           (combined_state cs = ''success'' \<or> combined_statuses cs = []) \<and>
           (\<forall>run \<in> set rs. run_conclusion run = Some ''skipped'' \<or>
              run_conclusion run = Some ''neutral'' \<or> run_conclusion run = Some ''success'')) \<and>
        (?st = yellow \<longleftrightarrow> ?st \<noteq> red \<and> ?st \<noteq> green)"
  proof
    assume "rs \<noteq> []"
    then obtain x where "x \<in> set rs" by (cases rs) auto
    show "(?st = red \<longleftrightarrow>
           combined_state cs = ''failure'' \<or>
           (\<exists>run \<in> set rs. run_conclusion run = Some ''failure'')) \<and>
        (?st = green \<longleftrightarrow>
           combined_state cs \<noteq> ''failure'' \<and>
           (combined_state cs = ''success'' \<or> combined_statuses cs = []) \<and>
           (\<forall>run \<in> set rs. run_conclusion run = Some ''skipped'' \<or>
              run_conclusion run = Some ''neutral'' \<or> run_conclusion run = Some ''success'')) \<and>
        (?st = yellow \<longleftrightarrow> ?st \<noteq> red \<and> ?st \<noteq> green)"
      unfolding aggregate_runs [OF \<open>rs \<noteq> []\<close>]
      by (cases ?st) (auto split: if_splits)
  qed
  have pending: "rs \<noteq> [] \<and> combined_state cs = ''pending'' \<and>
      (\<forall>run \<in> set rs. run_conclusion run = Some ''success'') \<longrightarrow>
        (?st = yellow \<longleftrightarrow> combined_statuses cs \<noteq> []) \<and>
        (?st = green \<longleftrightarrow> combined_statuses cs = [])"
  proof
    assume a: "rs \<noteq> [] \<and> combined_state cs = ''pending'' \<and>
      (\<forall>run \<in> set rs. run_conclusion run = Some ''success'')"
    then have "rs \<noteq> []" by simp
    from a show "(?st = yellow \<longleftrightarrow> combined_statuses cs \<noteq> []) \<and>
        (?st = green \<longleftrightarrow> combined_statuses cs = [])"
      unfolding aggregate_runs [OF \<open>rs \<noteq> []\<close>] by simp
  qed
  show ?thesis
    apply (rule exI [of _ ?st])
    apply (rule exI)
    apply (intro conjI)
       apply (rule run)
      apply (rule none)
     apply (rule some)
    apply (rule pending)
    done
qed


text \<open>A run of the theorem above: a pending legacy status beside a successful check run.\<close>

theorem getBranchStatus_aggregation_witness:
  "rest_status pending_status_env
     (log fresh_session @
      [GetStatus (repository fresh_session) (escapeHash ''renovate/lodash'')]) =
     Inr \<lparr>combined_state = ''pending'',
          combined_statuses = [\<lparr>status_context = ''ci/legacy'', status_state = ''pending''\<rparr>]\<rparr> \<and>
   rest_checkRuns pending_status_env
     (log fresh_session @
      [GetStatus (repository fresh_session) (escapeHash ''renovate/lodash''),
       GetCheckRuns (repository fresh_session) (escapeHash ''renovate/lodash'')]) =
     Inr [\<lparr>run_name = ''build'', run_status = ''completed'',
           run_conclusion = Some ''success''\<rparr>] \<and>
   fst (getBranchStatus pending_status_env ''renovate/lodash'' fresh_session) = Inr yellow"
proof -
  let ?cs = "\<lparr>combined_state = ''pending'',
          combined_statuses = [\<lparr>status_context = ''ci/legacy'', status_state = ''pending''\<rparr>]\<rparr>"
  let ?rs = "[\<lparr>run_name = ''build'', run_status = ''completed'',
           run_conclusion = Some ''success''\<rparr>]"
  have status: "rest_status pending_status_env
     (log fresh_session @
      [GetStatus (repository fresh_session) (escapeHash ''renovate/lodash'')]) = Inr ?cs"
    by (simp add: pending_status_env_def checks_only_env_def quiet_env_def)
  have runs: "rest_checkRuns pending_status_env
     (log fresh_session @
      [GetStatus (repository fresh_session) (escapeHash ''renovate/lodash''),
       GetCheckRuns (repository fresh_session) (escapeHash ''renovate/lodash'')]) = Inr ?rs"
    by (simp add: pending_status_env_def checks_only_env_def quiet_env_def)
  from getBranchStatus_aggregation [OF status runs]
  obtain st s' where
    run: "getBranchStatus pending_status_env ''renovate/lodash'' fresh_session = (Inr st, s')"
    and pending: "?rs \<noteq> [] \<and> combined_state ?cs = ''pending'' \<and>
      (\<forall>run \<in> set ?rs. run_conclusion run = Some ''success'') \<longrightarrow>
        (st = yellow \<longleftrightarrow> combined_statuses ?cs \<noteq> []) \<and>
        (st = green \<longleftrightarrow> combined_statuses ?cs = [])"
    by blast
  from pending have "st = yellow" by simp
  with run have "fst (getBranchStatus pending_status_env ''renovate/lodash'' fresh_session) =
      Inr yellow"
    by simp
  with status runs show ?thesis by (intro conjI)
qed

text \<open>
  C3 as stated fails: the legacy state is pending, not success, the only check run
  succeeded, and the result is green, because there is no legacy status.
\<close>

theorem getBranchStatus_pending_without_statuses_is_green:
  "rest_status checks_only_env
     [GetStatus ''acme/app'' ''renovate/lodash''] =
     Inr \<lparr>combined_state = ''pending'', combined_statuses = []\<rparr> \<and>
   rest_checkRuns checks_only_env
     [GetStatus ''acme/app'' ''renovate/lodash'', GetCheckRuns ''acme/app'' ''renovate/lodash''] =
     Inr [\<lparr>run_name = ''build'', run_status = ''completed'',
           run_conclusion = Some ''success''\<rparr>] \<and>
   issued fresh_session (snd (getBranchStatus checks_only_env ''renovate/lodash'' fresh_session)) =
     [GetStatus ''acme/app'' ''renovate/lodash'', GetCheckRuns ''acme/app'' ''renovate/lodash''] \<and>
   fst (getBranchStatus checks_only_env ''renovate/lodash'' fresh_session) = Inr green"
  by (simp add: getBranchStatus_def aggregate_status_def issue_request_def issued_def
      escapeHash_def checks_only_env_def quiet_env_def fresh_session_def)

section \<open>Properties of the synchronizer: the list of pull requests\<close>

lemma authored_by_bot_log [simp]:
  "authored_by_bot (s\<lparr>log := l\<rparr>) = authored_by_bot s"
  by (rule ext) (simp add: authored_by_bot_def)

lemma getPrList_fetched:
  assumes "prList s = None"
    and "rest_pulls e (log s @ [GetPulls (target_repo s) ''all'']) = Inr raw"
  shows "getPrList e s =
     (Inr (map list_entry (filter (authored_by_bot s) raw)),
      s\<lparr>log := log s @ [GetPulls (target_repo s) ''all''],
        prList := Some (map list_entry (filter (authored_by_bot s) raw))\<rparr>)"
  using assms
  by (simp add: getPrList_def issue_request_def Let_def)

lemma getPrList_session:
  assumes "getPrList e s = (r, s')"
  shows "forkMode s' = forkMode s \<and> repository s' = repository s"
  using assms
  by (auto simp: getPrList_def issue_request_def Let_def split: option.splits sum.splits)

lemma authored_by_bot_unfold:
  "authored_by_bot s =
     (\<lambda>pr. forkMode s \<or> ignorePrAuthor s \<or> \<not> truthy (rest_user_login pr) \<or>
      \<not> truthy (renovateUsername s) \<or> rest_user_login pr = renovateUsername s)"
  by (rule ext) (auto simp: authored_by_bot_def)

text \<open>
  C6, as the code has it. On a session without a cached list, when GitHub answers the
  listing: the one request issued asks for the pull requests of every state
  (\<open>state=all\<close>); a pull request is kept exactly when fork mode or the override is
  active, or it has no author login, or the session has no user name of the bot, or the
  two are equal; and the kept ones are returned in order, each with the state merged
  when GitHub says closed with a merge timestamp that is not empty, and with GitHub's
  state otherwise.
\<close>

theorem getPrList_filter_and_state:
  assumes "prList s = None"
    and "rest_pulls e (log s @ [GetPulls (target_repo s) ''all'']) = Inr raw"
  shows "\<exists>l s'. getPrList e s = (Inr l, s') \<and>
     issued s s' = [GetPulls (target_repo s) ''all''] \<and>
     (let kept = filter (\<lambda>pr. forkMode s \<or> ignorePrAuthor s \<or>
                    \<not> truthy (rest_user_login pr) \<or> \<not> truthy (renovateUsername s) \<or>
                    rest_user_login pr = renovateUsername s) raw
      in length l = length kept \<and>
         (\<forall>i < length kept.
            number (l ! i) = rest_number (kept ! i) \<and>
            sourceBranch (l ! i) = Some (rest_head_ref (kept ! i)) \<and>
            title (l ! i) = rest_title (kept ! i) \<and>
            state (l ! i) =
              (if rest_state (kept ! i) = ''closed'' \<and> truthy (rest_merged_at (kept ! i))
               then ''merged'' else rest_state (kept ! i))))"
proof -
  let ?kept = "filter (authored_by_bot s) raw"
  let ?l = "map list_entry ?kept"
  let ?s' = "s\<lparr>log := log s @ [GetPulls (target_repo s) ''all''], prList := Some ?l\<rparr>"
  have run: "getPrList e s = (Inr ?l, ?s')"
    by (rule getPrList_fetched [OF assms])
  have req: "issued s ?s' = [GetPulls (target_repo s) ''all'']"
    by (simp add: issued_def)
  have kept: "?kept = filter (\<lambda>pr. forkMode s \<or> ignorePrAuthor s \<or>
                    \<not> truthy (rest_user_login pr) \<or> \<not> truthy (renovateUsername s) \<or>
                    rest_user_login pr = renovateUsername s) raw"
    by (simp only: authored_by_bot_unfold)
  have entries: "length ?l = length ?kept \<and>
         (\<forall>i < length ?kept.
            number (?l ! i) = rest_number (?kept ! i) \<and>
            sourceBranch (?l ! i) = Some (rest_head_ref (?kept ! i)) \<and>
            title (?l ! i) = rest_title (?kept ! i) \<and>
            state (?l ! i) =
              (if rest_state (?kept ! i) = ''closed'' \<and> truthy (rest_merged_at (?kept ! i))
               then ''merged'' else rest_state (?kept ! i)))"
    by (simp add: list_entry_def PrState_Closed_def PrState_Merged_def)
  show ?thesis
    apply (rule exI [of _ ?l])
    apply (rule exI [of _ ?s'])
    apply (intro conjI)
      apply (rule run)
     apply (rule req)
    unfolding Let_def kept [symmetric]
    apply (rule entries)
    done
qed


text \<open>A run of the theorem above: the bot's merged pull request is listed as merged.\<close>

theorem getPrList_filter_and_state_witness:
  "prList fresh_session = None \<and>
   rest_pulls pulls_env (log fresh_session @ [GetPulls (target_repo fresh_session) ''all'']) =
     Inr [alice_pr, ghost_pr, merged_pr] \<and>
   (\<exists>l s'. getPrList pulls_env fresh_session = (Inr l, s') \<and>
      issued fresh_session s' = [GetPulls (target_repo fresh_session) ''all'']) \<and>
   fst (getPrList pulls_env fresh_session) = Inr [list_entry ghost_pr, list_entry merged_pr] \<and>
   state (list_entry merged_pr) = ''merged''"
proof -
  have cache: "prList fresh_session = None"
    by (simp add: fresh_session_def)
  have answer: "rest_pulls pulls_env
      (log fresh_session @ [GetPulls (target_repo fresh_session) ''all'']) =
     Inr [alice_pr, ghost_pr, merged_pr]"
    by (simp add: pulls_env_def quiet_env_def)
  from getPrList_filter_and_state [OF cache answer]
  have run: "\<exists>l s'. getPrList pulls_env fresh_session = (Inr l, s') \<and>
      issued fresh_session s' = [GetPulls (target_repo fresh_session) ''all'']"
    by blast
  have result: "fst (getPrList pulls_env fresh_session) =
      Inr [list_entry ghost_pr, list_entry merged_pr]"
    by (simp add: getPrList_def issue_request_def authored_by_bot_def Let_def
        fresh_session_def pulls_env_def quiet_env_def alice_pr_def ghost_pr_def merged_pr_def)
  have merged: "state (list_entry merged_pr) = ''merged''"
    by (simp add: list_entry_def merged_pr_def PrState_Closed_def PrState_Merged_def)
  from cache answer run result merged show ?thesis by (intro conjI)
qed

text \<open>
  C6 as stated fails: neither fork mode nor the override is active, and still the pull
  request of alice is kept by a session that has no user name of the bot, and the pull
  request without author is kept by the session of \<open>renovate-bot\<close>.
\<close>

theorem getPrList_keeps_pull_requests_of_others:
  "forkMode anonymous_session = False \<and> ignorePrAuthor anonymous_session = False \<and>
   renovateUsername anonymous_session = None \<and>
   rest_user_login alice_pr = Some ''alice'' \<and>
   fst (getPrList pulls_env anonymous_session) =
     Inr [list_entry alice_pr, list_entry ghost_pr, list_entry merged_pr] \<and>
   forkMode fresh_session = False \<and> ignorePrAuthor fresh_session = False \<and>
   renovateUsername fresh_session = Some ''renovate-bot'' \<and>
   rest_user_login ghost_pr = None \<and>
   fst (getPrList pulls_env fresh_session) = Inr [list_entry ghost_pr, list_entry merged_pr]"
  by (simp add: getPrList_def issue_request_def authored_by_bot_def Let_def anonymous_session_def
      fresh_session_def pulls_env_def quiet_env_def alice_pr_def ghost_pr_def merged_pr_def)

section \<open>Properties of the synchronizer: findPr\<close>

lemma matchesState_not_closed: "matchesState x ''!closed'' = (x \<noteq> ''closed'')"
  by (simp add: matchesState_def PrState_All_def startsWith_def)

lemma matchesState_cases:
  "matchesState x d =
     (d = ''all'' \<or> (d \<noteq> ''all'' \<and> startsWith d ''!'' \<and> x \<noteq> drop 1 d) \<or>
      (d \<noteq> ''all'' \<and> \<not> startsWith d ''!'' \<and> x = d))"
  by (auto simp: matchesState_def PrState_All_def)

lemma findPr_found:
  assumes "findPr e branchName prTitle st s = (Inr (Some p), s')"
  shows "findPr_match s branchName prTitle (case st of None \<Rightarrow> PrState_All | Some d \<Rightarrow> d) p"
proof -
  obtain l s1 where l: "getPrList e s = (Inr l, s1)"
    and f: "find (findPr_match s1 branchName prTitle
              (case st of None \<Rightarrow> PrState_All | Some d \<Rightarrow> d)) l = Some p"
    using assms by (auto simp: findPr_def Let_def split: prod.splits sum.splits)
  from f have "findPr_match s1 branchName prTitle
      (case st of None \<Rightarrow> PrState_All | Some d \<Rightarrow> d) p"
    by (auto simp: find_Some_iff)
  then show ?thesis
    using getPrList_session [OF l] by (simp add: findPr_match_def)
qed

text \<open>
  C7. A pull request that \<open>findPr\<close> returns has the given branch as its source branch;
  has the given title, when one is given (present and not empty); has a state that
  satisfies the filter, which is the wildcard, a negation marked by \<open>!\<close>, or an exact
  state, and the wildcard when no filter is given; and has the repository of the
  session as its source repository, unless fork mode is active. The filter
  \<open>!closed\<close> accepts every state except \<open>closed\<close>, and a merged pull request is
  returned under it.
\<close>

theorem findPr_returns_only_matches:
  "(findPr e branchName prTitle st s = (Inr (Some p), s') \<longrightarrow>
      sourceBranch p = Some branchName \<and>
      (truthy prTitle \<longrightarrow> Some (title p) = prTitle) \<and>
      (\<forall>d. st = Some d \<longrightarrow>
         d = ''all'' \<or> (d \<noteq> ''all'' \<and> startsWith d ''!'' \<and> state p \<noteq> drop 1 d) \<or>
         (d \<noteq> ''all'' \<and> \<not> startsWith d ''!'' \<and> state p = d)) \<and>
      (forkMode s \<or> sourceRepo p = Some (repository s)) \<and>
      (st = Some ''!closed'' \<longrightarrow> state p \<noteq> ''closed'')) \<and>
   (\<forall>x. matchesState x ''!closed'' = (x \<noteq> ''closed'')) \<and>
   (\<exists>e' s0 s1 q. findPr e' ''renovate/lodash'' None (Some ''!closed'') s0 = (Inr (Some q), s1) \<and>
      state q = ''merged'')"
proof (intro conjI impI allI)
  assume found: "findPr e branchName prTitle st s = (Inr (Some p), s')"
  let ?d = "case st of None \<Rightarrow> PrState_All | Some d \<Rightarrow> d"
  have m: "findPr_match s branchName prTitle ?d p"
    by (rule findPr_found [OF found])
  show "sourceBranch p = Some branchName"
    using m by (simp add: findPr_match_def)
  show "forkMode s \<or> sourceRepo p = Some (repository s)"
    using m by (auto simp: findPr_match_def)
  have ms: "matchesState (state p) ?d"
    using m by (simp add: findPr_match_def)
  {
    assume "truthy prTitle"
    then show "Some (title p) = prTitle"
      using m by (simp add: findPr_match_def)
  }
  {
    fix d assume "st = Some d"
    then have "matchesState (state p) d" using ms by simp
    then show "d = ''all'' \<or> (d \<noteq> ''all'' \<and> startsWith d ''!'' \<and> state p \<noteq> drop 1 d) \<or>
         (d \<noteq> ''all'' \<and> \<not> startsWith d ''!'' \<and> state p = d)"
      unfolding matchesState_cases .
  }
  {
    assume "st = Some ''!closed''"
    then have "matchesState (state p) ''!closed''" using ms by simp
    then show "state p \<noteq> ''closed''" unfolding matchesState_not_closed .
  }
next
  fix x show "matchesState x ''!closed'' = (x \<noteq> ''closed'')"
    by (rule matchesState_not_closed)
next
  have "findPr pulls_env ''renovate/lodash'' None (Some ''!closed'') fresh_session =
      (Inr (Some (list_entry merged_pr)),
       fresh_session\<lparr>log := [GetPulls ''acme/app'' ''all''],
         prList := Some [list_entry ghost_pr, list_entry merged_pr]\<rparr>)"
    by (simp add: findPr_def findPr_match_def matchesState_def startsWith_def getPrList_def
        Let_def issue_request_def authored_by_bot_def target_repo_def list_entry_def
        PrState_All_def PrState_Closed_def PrState_Merged_def
        fresh_session_def pulls_env_def quiet_env_def alice_pr_def ghost_pr_def merged_pr_def)
  moreover have "state (list_entry merged_pr) = ''merged''"
    by (simp add: list_entry_def merged_pr_def PrState_Closed_def PrState_Merged_def)
  ultimately show "\<exists>e' s0 s1 q.
      findPr e' ''renovate/lodash'' None (Some ''!closed'') s0 = (Inr (Some q), s1) \<and>
      state q = ''merged''"
    by blast
qed

text \<open>A run of C7: the filter \<open>!closed\<close> finds the merged pull request of the bot.\<close>

theorem findPr_returns_only_matches_witness:
  "findPr pulls_env ''renovate/lodash'' None (Some ''!closed'') fresh_session =
      (Inr (Some (list_entry merged_pr)),
       fresh_session\<lparr>log := [GetPulls ''acme/app'' ''all''],
         prList := Some [list_entry ghost_pr, list_entry merged_pr]\<rparr>) \<and>
   sourceBranch (list_entry merged_pr) = Some ''renovate/lodash'' \<and>
   sourceRepo (list_entry merged_pr) = Some (repository fresh_session) \<and>
   state (list_entry merged_pr) \<noteq> ''closed''"
proof -
  have run: "findPr pulls_env ''renovate/lodash'' None (Some ''!closed'') fresh_session =
      (Inr (Some (list_entry merged_pr)),
       fresh_session\<lparr>log := [GetPulls ''acme/app'' ''all''],
         prList := Some [list_entry ghost_pr, list_entry merged_pr]\<rparr>)"
    by (simp add: findPr_def findPr_match_def matchesState_def startsWith_def getPrList_def
        Let_def issue_request_def authored_by_bot_def target_repo_def list_entry_def
        PrState_All_def PrState_Closed_def PrState_Merged_def
        fresh_session_def pulls_env_def quiet_env_def alice_pr_def ghost_pr_def merged_pr_def)
  have nofork: "\<not> forkMode fresh_session"
    by (simp add: fresh_session_def)
  from findPr_returns_only_matches
         [of pulls_env "''renovate/lodash''" None "Some ''!closed''" fresh_session
             "list_entry merged_pr"] run nofork
  have "sourceBranch (list_entry merged_pr) = Some ''renovate/lodash'' \<and>
      sourceRepo (list_entry merged_pr) = Some (repository fresh_session) \<and>
      state (list_entry merged_pr) \<noteq> ''closed''"
    by blast
  with run show ?thesis by (intro conjI) simp_all
qed

section \<open>Properties of the session initialization\<close>








section \<open>Properties of the comments\<close>

lemma fold_snoc: "fold f (xs @ [x]) a = f x (fold f xs a)"
  by simp
















section \<open>Properties of the synchronizer: getBranchPr\<close>

lemma getPrList_again:
  assumes "getPrList e s = (Inr l, s1)"
  shows "getPrList e s1 = (Inr l, s1)"
  using assms
  by (auto simp: getPrList_def issue_request_def Let_def split: option.splits sum.splits)

lemma getPrList_keeps:
  assumes "getPrList e s = (r, s1)"
  shows "forkMode s1 = forkMode s" "repository s1 = repository s"
    "branchPrs s1 = branchPrs s" "repositoryOwner s1 = repositoryOwner s"
    "repositoryName s1 = repositoryName s"
  using assms
  by (auto simp: getPrList_def issue_request_def Let_def split: option.splits sum.splits)

lemma findPr_match_session:
  assumes "forkMode s1 = forkMode s" "repository s1 = repository s"
  shows "findPr_match s1 = findPr_match s"
  using assms by (intro ext) (simp add: findPr_match_def)

lemma findPr_listed:
  assumes "getPrList e s = (Inr l, s1)"
  shows "findPr e branchName prTitle (Some st) s =
      (Inr (find (findPr_match s branchName prTitle st) l), s1)"
  using assms findPr_match_session [OF getPrList_keeps(1,2) [OF assms]]
  by (simp add: findPr_def)

lemma findPr_match_state:
  "findPr_match s branchName None st =
     (\<lambda>p. sourceBranch p = Some branchName \<and> matchesState (state p) st \<and>
          (forkMode s \<or> sourceRepo p = Some (repository s)))"
  by (intro ext) (auto simp: findPr_match_def)

lemma matchesState_exact:
  "matchesState x ''open'' = (x = ''open'')" "matchesState x ''closed'' = (x = ''closed'')"
  by (simp_all add: matchesState_def PrState_All_def startsWith_def)

text \<open>What \<open>getBranchPr\<close> does when no pull request of the branch is cached or open.\<close>

lemma getBranchPr_closed:
  assumes nocache: "branchPrs s branchName = None"
    and listed: "getPrList e s = (Inr l, s1)"
    and noopen: "find (\<lambda>p. sourceBranch p = Some branchName \<and> state p = ''open'' \<and>
                    (forkMode s \<or> sourceRepo p = Some (repository s))) l = None"
  shows "getBranchPr e branchName s =
     (case find (\<lambda>p. sourceBranch p = Some branchName \<and> state p = ''closed'' \<and>
                    (forkMode s \<or> sourceRepo p = Some (repository s))) l of
        None \<Rightarrow> (Inr None, s1)
      | Some p \<Rightarrow>
          if endsWith (title p) '' - autoclosed'' \<and> truthy (closedAt p) then
            (case fromISO e (the (closedAt p)) of
               None \<Rightarrow> reopen_autoclosed e branchName p s1
             | Some t \<Rightarrow>
                 if now e - t > 604800000 then (Inr None, s1)
                 else reopen_autoclosed e branchName p s1)
          else (Inr None, s1))"
proof -
  have o: "findPr e branchName None (Some PrState_Open) s = (Inr None, s1)"
    unfolding findPr_listed [OF listed] findPr_match_state PrState_Open_def matchesState_exact
    using noopen by simp
  have c: "findPr e branchName None (Some PrState_Closed) s1 =
      (Inr (find (\<lambda>p. sourceBranch p = Some branchName \<and> state p = ''closed'' \<and>
                    (forkMode s \<or> sourceRepo p = Some (repository s))) l), s1)"
    unfolding findPr_listed [OF getPrList_again [OF listed]] findPr_match_state
      PrState_Closed_def matchesState_exact getPrList_keeps(1,2) [OF listed]
    by simp
  show ?thesis
    by (simp add: getBranchPr_def nocache o c REOPEN_THRESHOLD_MILLIS_def
        split: option.splits)
qed

text \<open>The three ways in which the reopening ends.\<close>

lemma reopen_autoclosed_cases:
  fixes e branchName p s
  defines "ref \<equiv> PostRef (repository s) (''refs/heads/'' @ branchName) (sha p)"
    and "patch \<equiv> PatchPull (repository s) (number p) ''open'' (strip_autoclosed (title p))"
  shows "rest_write e (log s @ [ref]) \<noteq> None \<Longrightarrow>
           reopen_autoclosed e branchName p s = (Inr None, s\<lparr>log := log s @ [ref]\<rparr>)"
    and "rest_write e (log s @ [ref]) = None \<Longrightarrow> rest_write e (log s @ [ref, patch]) \<noteq> None \<Longrightarrow>
           reopen_autoclosed e branchName p s = (Inr None, s\<lparr>log := log s @ [ref, patch]\<rparr>)"
    and "rest_write e (log s @ [ref]) = None \<Longrightarrow> rest_write e (log s @ [ref, patch]) = None \<Longrightarrow>
           reopen_autoclosed e branchName p s =
             remember_branchPr e branchName (number p)
               (forget_lists (number p) (s\<lparr>log := log s @ [ref, patch]\<rparr>))"
  unfolding ref_def patch_def
  by (auto simp: reopen_autoclosed_def remote_write_def issue_request_def forget_lists_def)


lemma index_by_number_snoc:
  "index_by_number (prs @ [x]) = (index_by_number prs)(number x \<mapsto> x)"
  by (simp add: index_by_number_def)

lemma index_by_number_Some:
  "index_by_number prs n = Some q \<Longrightarrow> q \<in> set prs \<and> number q = n"
proof (induction prs rule: rev_induct)
  case Nil
  then show ?case by (simp add: index_by_number_def)
next
  case (snoc x prs)
  then show ?case
    unfolding index_by_number_snoc by (auto split: if_splits)
qed

lemma index_by_number_present:
  "\<exists>pr \<in> set prs. number pr = n \<Longrightarrow> \<exists>q. index_by_number prs n = Some q"
proof (induction prs rule: rev_induct)
  case Nil
  then show ?case by simp
next
  case (snoc x prs)
  then show ?case
    unfolding index_by_number_snoc by (cases "number x = n") auto
qed

lemma open_entry_fields:
  "number (open_entry s node) = gq_number node"
  "title (open_entry s node) = gq_title node"
  "state (open_entry s node) = ''open''"
  by (simp_all add: open_entry_def Let_def PrState_Open_def)

lemma getPr_from_open_list:
  assumes n: "n \<noteq> 0"
    and cache: "openPrList s = None"
    and answer: "graphql_openPrs e
        (log s @ [GraphqlOpenPrs (repositoryOwner s) (repositoryName s)]) = Inr nodes"
    and present: "\<exists>node \<in> set nodes. gq_number node = n"
  shows "\<exists>q node s'. getPr e n s = (Inr (Some q), s') \<and> node \<in> set nodes \<and>
           gq_number node = n \<and> number q = n \<and> title q = gq_title node \<and> state q = ''open''"
proof -
  let ?s1 = "issue_request (GraphqlOpenPrs (repositoryOwner s) (repositoryName s))
               (s\<lparr>openPrList := Some Map.empty\<rparr>)"
  let ?prs = "map (open_entry ?s1) nodes"
  let ?m = "index_by_number ?prs"
  from present have ne: "nodes \<noteq> []" by auto
  have opened: "getOpenPrs e s = (?m, ?s1\<lparr>openPrList := Some ?m\<rparr>)"
    using cache answer ne by (simp add: getOpenPrs_def Let_def issue_request_def)
  from present have "\<exists>pr \<in> set ?prs. number pr = n"
    by (auto simp: open_entry_fields)
  then obtain q where q: "?m n = Some q"
    using index_by_number_present by blast
  then have "q \<in> set ?prs" "number q = n"
    using index_by_number_Some by blast+
  then obtain node where node: "node \<in> set nodes" "q = open_entry ?s1 node"
    by auto
  have run: "getPr e n s = (Inr (Some q), ?s1\<lparr>openPrList := Some ?m\<rparr>)"
    using n q by (simp add: getPr_def opened)
  have "gq_number node = n" "title q = gq_title node" "state q = ''open''"
    using node \<open>number q = n\<close> by (simp_all add: open_entry_fields)
  with run node(1) \<open>number q = n\<close> show ?thesis by blast
qed

lemma strip_autoclosed_suffix:
  "endsWith t '' - autoclosed'' \<Longrightarrow> strip_autoclosed t @ '' - autoclosed'' = t"
proof -
  assume a: "endsWith t '' - autoclosed''"
  then have "drop (length t - length '' - autoclosed'') t = '' - autoclosed''"
    by (simp add: endsWith_def)
  then have "take (length t - length '' - autoclosed'') t @ '' - autoclosed'' = t"
    by (metis append_take_drop_id)
  then show ?thesis using a by (simp add: strip_autoclosed_def)
qed


lemma remember_branchPr_found:
  assumes "getPr e n s = (Inr (Some q), s')"
  shows "fst (remember_branchPr e branchName n s) = Inr (Some q)"
  using assms by (simp add: remember_branchPr_def)

text \<open>
  C2, as the code has it. When no pull request of the branch is cached and none is
  open, \<open>getBranchPr\<close> looks at the first closed one, \<open>p\<close>, and returns nothing
  without any further request unless its title ends with \<open> - autoclosed\<close>, it has a
  closing time, and that time is not more than 604800000 milliseconds ago (or cannot be
  parsed). Otherwise it recreates the branch and reopens the pull request under the
  title without the suffix; a failure of either request returns nothing and throws
  nothing. After both succeeded it forgets the open list and the closed entry, fetches
  the pull request again and returns it: when GitHub then lists it among the open ones
  under the new title, the record returned has that title.
\<close>

theorem getBranchPr_reopens_autoclosed:
  fixes e branchName s l s1 p
  defines "closed \<equiv> find (\<lambda>p. sourceBranch p = Some branchName \<and> state p = ''closed'' \<and>
                    (forkMode s \<or> sourceRepo p = Some (repository s))) l"
    and "ref \<equiv> PostRef (repository s) (''refs/heads/'' @ branchName) (sha p)"
    and "patch \<equiv> PatchPull (repository s) (number p) ''open'' (strip_autoclosed (title p))"
  assumes nocache: "branchPrs s branchName = None"
    and listed: "getPrList e s = (Inr l, s1)"
    and noopen: "find (\<lambda>p. sourceBranch p = Some branchName \<and> state p = ''open'' \<and>
                    (forkMode s \<or> sourceRepo p = Some (repository s))) l = None"
  shows "(closed = None \<longrightarrow> getBranchPr e branchName s = (Inr None, s1)) \<and>
     (closed = Some p \<and> (\<not> endsWith (title p) '' - autoclosed'' \<or> \<not> truthy (closedAt p)) \<longrightarrow>
        getBranchPr e branchName s = (Inr None, s1)) \<and>
     (\<forall>t. closed = Some p \<and> endsWith (title p) '' - autoclosed'' \<and> truthy (closedAt p) \<and>
          fromISO e (the (closedAt p)) = Some t \<and> now e - t > 604800000 \<longrightarrow>
        getBranchPr e branchName s = (Inr None, s1)) \<and>
     (closed = Some p \<and> endsWith (title p) '' - autoclosed'' \<and> truthy (closedAt p) \<and>
      (\<forall>t. fromISO e (the (closedAt p)) = Some t \<longrightarrow> now e - t \<le> 604800000) \<longrightarrow>
        (\<exists>res s'. getBranchPr e branchName s = (res, s') \<and>
           strip_autoclosed (title p) @ '' - autoclosed'' = title p \<and>
           (rest_write e (log s1 @ [ref]) \<noteq> None \<longrightarrow>
              res = Inr None \<and> issued s1 s' = [ref]) \<and>
           (rest_write e (log s1 @ [ref]) = None \<and> rest_write e (log s1 @ [ref, patch]) \<noteq> None \<longrightarrow>
              res = Inr None \<and> issued s1 s' = [ref, patch]) \<and>
           (rest_write e (log s1 @ [ref]) = None \<and> rest_write e (log s1 @ [ref, patch]) = None \<longrightarrow>
              (res, s') = remember_branchPr e branchName (number p)
                 (forget_lists (number p) (s1\<lparr>log := log s1 @ [ref, patch]\<rparr>)) \<and>
              (\<forall>nodes. number p \<noteq> 0 \<and>
                  graphql_openPrs e (log s1 @ [ref, patch,
                     GraphqlOpenPrs (repositoryOwner s) (repositoryName s)]) = Inr nodes \<and>
                  (\<exists>node \<in> set nodes. gq_number node = number p) \<and>
                  (\<forall>node \<in> set nodes. gq_number node = number p \<longrightarrow>
                     gq_title node = strip_autoclosed (title p)) \<longrightarrow>
                  (\<exists>q. res = Inr (Some q) \<and> number q = number p \<and>
                     title q = strip_autoclosed (title p))))))"
proof -
  note run = getBranchPr_closed [OF nocache listed noopen, folded closed_def]
  note keeps = getPrList_keeps [OF listed]
  have none: "closed = None \<longrightarrow> getBranchPr e branchName s = (Inr None, s1)"
    unfolding run by simp
  have other: "closed = Some p \<and>
      (\<not> endsWith (title p) '' - autoclosed'' \<or> \<not> truthy (closedAt p)) \<longrightarrow>
        getBranchPr e branchName s = (Inr None, s1)"
    unfolding run by auto
  have stale: "\<forall>t. closed = Some p \<and> endsWith (title p) '' - autoclosed'' \<and>
          truthy (closedAt p) \<and>
          fromISO e (the (closedAt p)) = Some t \<and> now e - t > 604800000 \<longrightarrow>
        getBranchPr e branchName s = (Inr None, s1)"
    unfolding run by auto
  have fresh: "\<exists>res s'. getBranchPr e branchName s = (res, s') \<and>
           strip_autoclosed (title p) @ '' - autoclosed'' = title p \<and>
           (rest_write e (log s1 @ [ref]) \<noteq> None \<longrightarrow>
              res = Inr None \<and> issued s1 s' = [ref]) \<and>
           (rest_write e (log s1 @ [ref]) = None \<and> rest_write e (log s1 @ [ref, patch]) \<noteq> None \<longrightarrow>
              res = Inr None \<and> issued s1 s' = [ref, patch]) \<and>
           (rest_write e (log s1 @ [ref]) = None \<and> rest_write e (log s1 @ [ref, patch]) = None \<longrightarrow>
              (res, s') = remember_branchPr e branchName (number p)
                 (forget_lists (number p) (s1\<lparr>log := log s1 @ [ref, patch]\<rparr>)) \<and>
              (\<forall>nodes. number p \<noteq> 0 \<and>
                  graphql_openPrs e (log s1 @ [ref, patch,
                     GraphqlOpenPrs (repositoryOwner s) (repositoryName s)]) = Inr nodes \<and>
                  (\<exists>node \<in> set nodes. gq_number node = number p) \<and>
                  (\<forall>node \<in> set nodes. gq_number node = number p \<longrightarrow>
                     gq_title node = strip_autoclosed (title p)) \<longrightarrow>
                  (\<exists>q. res = Inr (Some q) \<and> number q = number p \<and>
                     title q = strip_autoclosed (title p))))"
    if found: "closed = Some p" and suffix: "endsWith (title p) '' - autoclosed''"
      and stamp: "truthy (closedAt p)"
      and recent: "\<forall>t. fromISO e (the (closedAt p)) = Some t \<longrightarrow> now e - t \<le> 604800000"
  proof -
    have go: "getBranchPr e branchName s = reopen_autoclosed e branchName p s1"
      unfolding run using found suffix stamp recent
      by (cases "fromISO e (the (closedAt p))") auto
    let ?ref = "PostRef (repository s1) (''refs/heads/'' @ branchName) (sha p)"
    let ?patch = "PatchPull (repository s1) (number p) ''open'' (strip_autoclosed (title p))"
    have names: "?ref = ref" "?patch = patch"
      by (simp_all add: ref_def patch_def keeps)
    note cases = reopen_autoclosed_cases [of e s1 branchName p, unfolded names]
    let ?s2 = "forget_lists (number p) (s1\<lparr>log := log s1 @ [ref, patch]\<rparr>)"
    obtain res s' where rs: "getBranchPr e branchName s = (res, s')"
      by (cases "getBranchPr e branchName s")
    have a: "rest_write e (log s1 @ [ref]) \<noteq> None \<longrightarrow> res = Inr None \<and> issued s1 s' = [ref]"
      using cases(1) rs go by (auto simp: issued_def)
    have b: "rest_write e (log s1 @ [ref]) = None \<and>
        rest_write e (log s1 @ [ref, patch]) \<noteq> None \<longrightarrow>
          res = Inr None \<and> issued s1 s' = [ref, patch]"
      using cases(2) rs go by (auto simp: issued_def)
    have c: "(res, s') = remember_branchPr e branchName (number p) ?s2"
      if ok: "rest_write e (log s1 @ [ref]) = None \<and> rest_write e (log s1 @ [ref, patch]) = None"
      using cases(3) rs go ok by simp
    have d: "\<exists>q. res = Inr (Some q) \<and> number q = number p \<and>
                     title q = strip_autoclosed (title p)"
      if ok: "rest_write e (log s1 @ [ref]) = None \<and> rest_write e (log s1 @ [ref, patch]) = None"
        and nodes: "number p \<noteq> 0 \<and>
                  graphql_openPrs e (log s1 @ [ref, patch,
                     GraphqlOpenPrs (repositoryOwner s) (repositoryName s)]) = Inr nodes \<and>
                  (\<exists>node \<in> set nodes. gq_number node = number p) \<and>
                  (\<forall>node \<in> set nodes. gq_number node = number p \<longrightarrow>
                     gq_title node = strip_autoclosed (title p))"
      for nodes
    proof -
      have s2: "openPrList ?s2 = None" "log ?s2 = log s1 @ [ref, patch]"
        "repositoryOwner ?s2 = repositoryOwner s" "repositoryName ?s2 = repositoryName s"
        by (simp_all add: forget_lists_def keeps)
      have answer: "graphql_openPrs e
          (log ?s2 @ [GraphqlOpenPrs (repositoryOwner ?s2) (repositoryName ?s2)]) = Inr nodes"
        unfolding s2 using nodes by simp
      from getPr_from_open_list [OF _ s2(1) answer] nodes
      obtain q node s3 where q: "getPr e (number p) ?s2 = (Inr (Some q), s3)"
        "node \<in> set nodes" "gq_number node = number p" "number q = number p"
        "title q = gq_title node"
        by blast
      have "res = Inr (Some q)"
        using remember_branchPr_found [OF q(1), of branchName] c [OF ok]
        by (metis fst_conv)
      moreover have "title q = strip_autoclosed (title p)"
        using q nodes by simp
      ultimately show ?thesis using q(4) by blast
    qed
    show ?thesis
      apply (rule exI [of _ res])
      apply (rule exI [of _ s'])
      apply (intro conjI)
          apply (rule rs)
         apply (rule strip_autoclosed_suffix [OF suffix])
        apply (rule a)
       apply (rule b)
      apply (intro impI conjI allI)
       apply (erule c)
      apply (erule (1) d)
      done
  qed
  show ?thesis
    apply (intro conjI)
       apply (rule none)
      apply (rule other)
     apply (rule stale)
    apply (intro impI)
    apply (elim conjE)
    apply (erule (3) fresh)
    done
qed


lemmas getBranchPr_run_defs =
  getBranchPr_def findPr_def findPr_match_def matchesState_def startsWith_def endsWith_def
  getPrList_def authored_by_bot_def list_entry_def reopen_autoclosed_def
  strip_autoclosed_def remember_branchPr_def getPr_def getOpenPrs_def open_entry_def
  index_by_number_def canMergeStates_def remote_write_def issue_request_def issued_def
  target_repo_def REOPEN_THRESHOLD_MILLIS_def PrState_All_def PrState_Open_def
  PrState_Closed_def PrState_Merged_def Let_def
  autoclosed_env_def autoclosed_pr_def reopened_node_def quiet_env_def fresh_session_def

text \<open>
  A run of the theorem above: the pull request was closed one day ago, both requests
  succeed, and the record returned has the title without the suffix; closed eight days
  ago, it is left alone.
\<close>

theorem getBranchPr_reopens_autoclosed_witness:
  "branchPrs fresh_session ''renovate/lodash'' = None \<and>
   getPrList (autoclosed_env 86400000) fresh_session =
     (Inr [list_entry autoclosed_pr],
      fresh_session\<lparr>log := [GetPulls ''acme/app'' ''all''],
        prList := Some [list_entry autoclosed_pr]\<rparr>) \<and>
   title (list_entry autoclosed_pr) = ''Update dep - autoclosed'' \<and>
   fromISO (autoclosed_env 86400000) (the (closedAt (list_entry autoclosed_pr))) =
     Some 1614556800000 \<and>
   now (autoclosed_env 86400000) - 1614556800000 = 86400000 \<and>
   (\<exists>q s'. getBranchPr (autoclosed_env 86400000) ''renovate/lodash'' fresh_session =
        (Inr (Some q), s') \<and> number q = 12 \<and> title q = ''Update dep'') \<and>
   now (autoclosed_env 691200000) - 1614556800000 = 691200000 \<and>
   getBranchPr (autoclosed_env 691200000) ''renovate/lodash'' fresh_session =
     (Inr None, fresh_session\<lparr>log := [GetPulls ''acme/app'' ''all''],
        prList := Some [list_entry autoclosed_pr]\<rparr>)"
proof -
  let ?b = "''renovate/lodash''"
  let ?p = "list_entry autoclosed_pr"
  let ?s1 = "fresh_session\<lparr>log := [GetPulls ''acme/app'' ''all''], prList := Some [?p]\<rparr>"
  let ?ref = "PostRef (repository fresh_session) (''refs/heads/'' @ ?b) (sha ?p)"
  let ?patch = "PatchPull (repository fresh_session) (number ?p) ''open''
                  (strip_autoclosed (title ?p))"
  have nocache: "branchPrs fresh_session ?b = None"
    by (simp add: fresh_session_def)
  have listed: "getPrList (autoclosed_env ago) fresh_session = (Inr [?p], ?s1)" for ago
    by (simp add: getPrList_def authored_by_bot_def issue_request_def target_repo_def Let_def
        autoclosed_env_def autoclosed_pr_def quiet_env_def fresh_session_def)
  have noopen: "find (\<lambda>p. sourceBranch p = Some ?b \<and> state p = ''open'' \<and>
      (forkMode fresh_session \<or> sourceRepo p = Some (repository fresh_session))) [?p] = None"
    by (simp add: list_entry_def autoclosed_pr_def PrState_Closed_def)
  have closed: "find (\<lambda>p. sourceBranch p = Some ?b \<and> state p = ''closed'' \<and>
      (forkMode fresh_session \<or> sourceRepo p = Some (repository fresh_session))) [?p] = Some ?p"
    by (simp add: list_entry_def autoclosed_pr_def PrState_Closed_def fresh_session_def)
  have ttl: "title ?p = ''Update dep - autoclosed''"
    by (simp add: list_entry_def autoclosed_pr_def)
  have suffix: "endsWith (title ?p) '' - autoclosed''"
    unfolding ttl by (simp add: endsWith_def)
  have stripped: "strip_autoclosed (title ?p) = ''Update dep''"
    unfolding ttl by (simp add: strip_autoclosed_def endsWith_def)
  have stamp: "truthy (closedAt ?p)"
    by (simp add: list_entry_def autoclosed_pr_def)
  have parsed: "fromISO (autoclosed_env ago) (the (closedAt ?p)) = Some 1614556800000" for ago
    by (simp add: list_entry_def autoclosed_pr_def autoclosed_env_def)
  have clock: "now (autoclosed_env ago) - 1614556800000 = ago" for ago
    by (simp add: autoclosed_env_def)
  have writes: "rest_write (autoclosed_env ago) h = None" for ago h
    by (simp add: autoclosed_env_def quiet_env_def)
  have num: "number ?p = 12"
    by (simp add: list_entry_def autoclosed_pr_def)
  have nodes: "graphql_openPrs (autoclosed_env ago) h = Inr [reopened_node]" for ago h
    by (simp add: autoclosed_env_def)
  have node: "gq_number reopened_node = 12" "gq_title reopened_node = ''Update dep''"
    by (simp_all add: reopened_node_def)
  note inst = getBranchPr_reopens_autoclosed [OF nocache listed noopen, of _ "?p", unfolded closed]
  have recent: "\<forall>t. fromISO (autoclosed_env 86400000) (the (closedAt ?p)) = Some t \<longrightarrow>
      now (autoclosed_env 86400000) - t \<le> 604800000"
    unfolding parsed by (simp add: clock)
  from inst [of 86400000, THEN conjunct2, THEN conjunct2, THEN conjunct2, rule_format,
      OF conjI [OF refl conjI [OF suffix conjI [OF stamp recent]]]]
  obtain res s' where
    run: "getBranchPr (autoclosed_env 86400000) ?b fresh_session = (res, s')"
    and ok_case: "rest_write (autoclosed_env 86400000) (log ?s1 @ [?ref]) = None \<and>
        rest_write (autoclosed_env 86400000) (log ?s1 @ [?ref, ?patch]) = None \<longrightarrow>
      (res, s') = remember_branchPr (autoclosed_env 86400000) ?b (number ?p)
         (forget_lists (number ?p) (?s1\<lparr>log := log ?s1 @ [?ref, ?patch]\<rparr>)) \<and>
      (\<forall>nodes. number ?p \<noteq> 0 \<and>
        graphql_openPrs (autoclosed_env 86400000) (log ?s1 @ [?ref, ?patch,
           GraphqlOpenPrs (repositoryOwner fresh_session) (repositoryName fresh_session)]) =
          Inr nodes \<and>
        (\<exists>node \<in> set nodes. gq_number node = number ?p) \<and>
        (\<forall>node \<in> set nodes. gq_number node = number ?p \<longrightarrow>
           gq_title node = strip_autoclosed (title ?p)) \<longrightarrow>
        (\<exists>q. res = Inr (Some q) \<and> number q = number ?p \<and>
           title q = strip_autoclosed (title ?p)))"
    by (elim exE conjE) (rule that; assumption)
  from ok_case have served: "\<forall>nodes. number ?p \<noteq> 0 \<and>
        graphql_openPrs (autoclosed_env 86400000) (log ?s1 @ [?ref, ?patch,
           GraphqlOpenPrs (repositoryOwner fresh_session) (repositoryName fresh_session)]) =
          Inr nodes \<and>
        (\<exists>node \<in> set nodes. gq_number node = number ?p) \<and>
        (\<forall>node \<in> set nodes. gq_number node = number ?p \<longrightarrow>
           gq_title node = strip_autoclosed (title ?p)) \<longrightarrow>
        (\<exists>q. res = Inr (Some q) \<and> number q = number ?p \<and>
           title q = strip_autoclosed (title ?p))"
    unfolding writes by blast
  from served [rule_format, of "[reopened_node]"]
  obtain q where "res = Inr (Some q)" "number q = 12" "title q = ''Update dep''"
    unfolding nodes num stripped by (auto simp: node)
  with run have day: "\<exists>q s'. getBranchPr (autoclosed_env 86400000) ?b fresh_session =
        (Inr (Some q), s') \<and> number q = 12 \<and> title q = ''Update dep''"
    by blast
  have old: "getBranchPr (autoclosed_env 691200000) ?b fresh_session = (Inr None, ?s1)"
    using inst [of 691200000, THEN conjunct2, THEN conjunct2, THEN conjunct1, rule_format,
        of 1614556800000] suffix stamp parsed
    by (simp add: clock)
  show ?thesis
    apply (intro conjI)
           apply (rule nocache)
          apply (rule listed)
         apply (rule ttl)
        apply (rule parsed)
       apply (rule clock)
      apply (rule day)
     apply (rule clock)
    apply (rule old)
    done
qed

text \<open>
  C2 as stated fails at the threshold: a pull request closed exactly 604800000
  milliseconds ago, which is not less than seven days ago, is reopened.
\<close>

theorem getBranchPr_reopens_at_seven_days:
  "fromISO (autoclosed_env 604800000) ''2021-03-01T00:00:00.000Z'' = Some 1614556800000 \<and>
   now (autoclosed_env 604800000) - 1614556800000 = 604800000 \<and>
   \<not> now (autoclosed_env 604800000) - 1614556800000 < 604800000 \<and>
   issued fresh_session
     (snd (getBranchPr (autoclosed_env 604800000) ''renovate/lodash'' fresh_session)) =
     [GetPulls ''acme/app'' ''all'',
      PostRef ''acme/app'' ''refs/heads/renovate/lodash'' (Some ''c0ffee''),
      PatchPull ''acme/app'' 12 ''open'' ''Update dep'',
      GraphqlOpenPrs ''acme'' ''app'']"
  by (simp add: getBranchPr_run_defs)

section \<open>Properties of the issues\<close>

lemma toLowerCase_states:
  "toLowerCase ''OPEN'' = ''open''" "toLowerCase ''CLOSED'' = ''closed''"
  by code_simp+

lemmas ensureIssue_run_defs =
  ensureIssue_def create_issue_def getIssueList_def getIssues_def closeIssue_def
  remote_write_def issue_request_def target_repo_def toLowerCase_states
  issued_def Let_def dashboard_def quiet_env_def fresh_session_def



















text \<open>
  The path that updates. The issue list of the session holds the issue as closed: the
  first call reopens it with a patch and leaves the list as it is, where the path that
  creates drops the list; so the second call still sees the issue as closed and
  patches it again.
\<close>

lemma ensureIssue_reopens_twice:
  "fst (ensureIssue reopening_env dashboard fresh_session) = Some updated \<and>
   fst (ensureIssue reopening_env dashboard
          (snd (ensureIssue reopening_env dashboard fresh_session))) = Some updated \<and>
   filter is_write
     (log (snd (ensureIssue reopening_env dashboard
          (snd (ensureIssue reopening_env dashboard fresh_session))))) =
     [PatchIssue ''acme/app'' 1 ''open'' (Some ''This issue lists the updates.'')
        (Some ''Dependency Dashboard'') (Some [''renovate'']),
      PatchIssue ''acme/app'' 1 ''open'' (Some ''This issue lists the updates.'')
        (Some ''Dependency Dashboard'') (Some [''renovate''])]"
  by (simp add: ensureIssue_run_defs reopening_env_def)

end
